theory Spec2Isabelle
  imports
    Complex_Main
    "HOL-Library.Word"
    "HOL-Library.Signed_Division"
    "HOL-Library.Monad_Syntax"
begin

section \<open>The Van Gogh (LIC) plug-in: data model\<close>

text \<open>
  The embedding follows \<^verbatim>\<open>plug-ins/common/van-gogh-lic.c\<close>.

  \<^item> \<^verbatim>\<open>gint\<close> is modelled by \<open>int\<close>: the coordinates and sums of the plug-in stay far
    from the 32-bit range, and a signed overflow has no defined result in C.
  \<^item> \<^verbatim>\<open>guchar\<close> is \<open>8 word\<close>.
  \<^item> \<^verbatim>\<open>gdouble\<close> is modelled by \<open>real\<close>: rounding is not modelled. A division by a
    variable goes through \<open>fdiv\<close>, which has no result when the divisor is zero
    (the C program gets an infinity or a NaN there, neither of which is a real).
  \<^item> A function whose C code can loop forever, read outside an array or leave
    the real numbers returns an \<open>option\<close>, with \<open>None\<close> for "no defined result".
\<close>

type_synonym guchar = "8 word"

text \<open>\<^verbatim>\<open>GimpRGB\<close>: the four doubles \<^verbatim>\<open>r\<close>, \<^verbatim>\<open>g\<close>, \<^verbatim>\<open>b\<close>, \<^verbatim>\<open>a\<close>.\<close>

record GimpRGB =
  rgb_r :: real
  rgb_g :: real
  rgb_b :: real
  rgb_a :: real

text \<open>\<^verbatim>\<open>LicValues\<close>, the persisted parameters of the plug-in.\<close>

record LicValues =
  filtlen :: real
  noisemag :: real
  intsteps :: real
  lv_minv :: real
  lv_maxv :: real
  effect_channel :: int
  effect_operator :: int
  effect_convolve :: int
  effect_image_id :: int

text \<open>
  The file-level variables that the numeric routines read: \<^verbatim>\<open>l\<close>, \<^verbatim>\<open>dx\<close>,
  \<^verbatim>\<open>dy\<close>, \<^verbatim>\<open>minv\<close>, \<^verbatim>\<open>maxv\<close>, \<^verbatim>\<open>isteps\<close>, \<^verbatim>\<open>source_drw_has_alpha\<close>, the size of
  the effect image and the size of the processed rectangle. They are set once
  by \<^verbatim>\<open>compute_image\<close> and passed explicitly here (the one-letter names carry the
  prefix \<open>gl_\<close>).
\<close>

record globals =
  gl_l :: real
  gl_dx :: real
  gl_dy :: real
  gl_minv :: real
  gl_maxv :: real
  gl_isteps :: real
  source_drw_has_alpha :: bool
  effect_width :: int
  effect_height :: int
  border_w :: int
  border_h :: int

text \<open>The initial values of the file-level variables.\<close>

definition initial_globals :: globals where
  "initial_globals =
     \<lparr> gl_l = 10, gl_dx = 2, gl_dy = 2, gl_minv = - 5 / 2, gl_maxv = 5 / 2, gl_isteps = 20,
       source_drw_has_alpha = False, effect_width = 0, effect_height = 0,
       border_w = 0, border_h = 0 \<rparr>"

text \<open>
  A scalar map is the block returned by \<^verbatim>\<open>g_new (guchar, n)\<close>: \<open>n\<close> cells, a cell
  being \<open>None\<close> until it is written (\<^verbatim>\<open>g_new\<close> does not clear the block).
\<close>

type_synonym scalar_map = "guchar option list"

text \<open>\<^verbatim>\<open>numx\<close> and \<^verbatim>\<open>numy\<close>, the size of the grid of pseudo-random vectors.\<close>

definition numx :: int where "numx = 40"
definition numy :: int where "numy = 40"

text \<open>
  The grid \<^verbatim>\<open>G[numx][numy][2]\<close>: the vector stored at an index pair.
\<close>

type_synonym vector_grid = "int \<Rightarrow> int \<Rightarrow> real \<times> real"

section \<open>Arithmetic of the C program\<close>

text \<open>Division of doubles by a variable: no real result for a zero divisor.\<close>

definition fdiv :: "real \<Rightarrow> real \<Rightarrow> real option" where
  "fdiv x y = (if y = 0 then None else Some (x / y))"

text \<open>\<^verbatim>\<open>%\<close> on \<^verbatim>\<open>gint\<close>: the remainder of the truncating division; no result for 0.\<close>

definition c_mod :: "int \<Rightarrow> int \<Rightarrow> int option" where
  "c_mod x w = (if w = 0 then None else Some (x smod w))"

text \<open>glib's \<^verbatim>\<open>CLAMP (x, low, high)\<close>.\<close>

definition CLAMP :: "real \<Rightarrow> real \<Rightarrow> real \<Rightarrow> real" where
  "CLAMP x low high = (if x > high then high else if x < low then low else x)"

section \<open>Reading the scalar map\<close>

text \<open>
  \<^verbatim>\<open>while (x < 0) x += effect_width;\<close> This loop does not end when \<open>x\<close> is
  negative and the width is not positive.
\<close>

partial_function (option) add_while_negative :: "int \<Rightarrow> int \<Rightarrow> int option" where
  "add_while_negative x w = (if x < 0 then add_while_negative (x + w) w else Some x)"

text \<open>\<^verbatim>\<open>image[k]\<close>: defined inside the block, on a cell that has been written.\<close>

definition read_map :: "scalar_map \<Rightarrow> int \<Rightarrow> int option" where
  "read_map img k =
     (if 0 \<le> k \<and> k < int (length img) then map_option uint (img ! nat k) else None)"

definition peekmap :: "globals \<Rightarrow> scalar_map \<Rightarrow> int \<Rightarrow> int \<Rightarrow> int option" where
  "peekmap gl img x y =
     do {
       x1 \<leftarrow> add_while_negative x (effect_width gl);
       x2 \<leftarrow> c_mod x1 (effect_width gl);
       y1 \<leftarrow> add_while_negative y (effect_height gl);
       y2 \<leftarrow> c_mod y1 (effect_height gl);
       read_map img (x2 + effect_width gl * y2)
     }"

section \<open>The derivative in the x and y direction\<close>

definition gradx :: "globals \<Rightarrow> scalar_map \<Rightarrow> int \<Rightarrow> int \<Rightarrow> int option" where
  "gradx gl img x y =
     do {
       let val = 0;
       p1 \<leftarrow> peekmap gl img (x - 1) (y - 1);
       let val = val + p1;
       p2 \<leftarrow> peekmap gl img (x + 1) (y - 1);
       let val = val - p2;
       p3 \<leftarrow> peekmap gl img (x - 1) y;
       let val = val + 2 * p3;
       p4 \<leftarrow> peekmap gl img (x + 1) y;
       let val = val - 2 * p4;
       p5 \<leftarrow> peekmap gl img (x - 1) (y + 1);
       let val = val + p5;
       p6 \<leftarrow> peekmap gl img (x + 1) (y + 1);
       let val = val - p6;
       Some val
     }"

definition grady :: "globals \<Rightarrow> scalar_map \<Rightarrow> int \<Rightarrow> int \<Rightarrow> int option" where
  "grady gl img x y =
     do {
       let val = 0;
       p1 \<leftarrow> peekmap gl img (x - 1) (y - 1);
       let val = val + p1;
       p2 \<leftarrow> peekmap gl img x (y - 1);
       let val = val + 2 * p2;
       p3 \<leftarrow> peekmap gl img (x + 1) (y - 1);
       let val = val + p3;
       p4 \<leftarrow> peekmap gl img (x - 1) (y + 1);
       let val = val - p4;
       p5 \<leftarrow> peekmap gl img x (y + 1);
       let val = val - 2 * p5;
       p6 \<leftarrow> peekmap gl img (x + 1) (y + 1);
       let val = val - p6;
       Some val
     }"

section \<open>The noise function\<close>

text \<open>A second order cubic spline.\<close>

definition cubic :: "real \<Rightarrow> real" where
  "cubic t = (let a_t = \<bar>t\<bar> in if a_t < 1 then a_t * a_t * (2 * a_t - 3) + 1 else 0)"

text \<open>
  \<^verbatim>\<open>while (i < 0) i += numx;\<close> and \<^verbatim>\<open>while (j < 0) j += numy;\<close> in \<^verbatim>\<open>omega\<close>.
  Both constants are positive, so the loops end.
\<close>

function add_numx_while_negative :: "int \<Rightarrow> int" where
  "add_numx_while_negative i = (if i < 0 then add_numx_while_negative (i + numx) else i)"
  by pat_completeness auto
termination
  by (relation "measure (\<lambda>i. nat (- i))") (auto simp: numx_def)

declare add_numx_while_negative.simps [simp del]

function add_numy_while_negative :: "int \<Rightarrow> int" where
  "add_numy_while_negative j = (if j < 0 then add_numy_while_negative (j + numy) else j)"
  by pat_completeness auto
termination
  by (relation "measure (\<lambda>j. nat (- j))") (auto simp: numy_def)

declare add_numy_while_negative.simps [simp del]

definition omega :: "vector_grid \<Rightarrow> real \<Rightarrow> real \<Rightarrow> int \<Rightarrow> int \<Rightarrow> real" where
  "omega G u v i j =
     (let i = add_numx_while_negative i;
          j = add_numy_while_negative j;
          i = i smod numx;
          j = j smod numy
      in cubic u * cubic v * (fst (G i j) * u + snd (G i j) * v))"

text \<open>One summand of \<^verbatim>\<open>noise\<close>: the body of the inner loop for the cell \<open>(i, j)\<close>.\<close>

definition noise_term :: "globals \<Rightarrow> vector_grid \<Rightarrow> real \<Rightarrow> real \<Rightarrow> int \<Rightarrow> int \<Rightarrow> real option" where
  "noise_term gl G x y i j =
     do {
       u \<leftarrow> fdiv (x - of_int i * gl_dx gl) (gl_dx gl);
       v \<leftarrow> fdiv (y - of_int j * gl_dy gl) (gl_dy gl);
       Some (omega G u v i j)
     }"

text \<open>
  \<^verbatim>\<open>noise\<close>: the two loops run over \<open>i = sti, sti + 1\<close> and \<open>j = stj, stj + 1\<close>, the
  inner one over \<open>j\<close>; the four summands are added in that order.
\<close>

definition noise :: "globals \<Rightarrow> vector_grid \<Rightarrow> real \<Rightarrow> real \<Rightarrow> real option" where
  "noise gl G x y =
     do {
       qx \<leftarrow> fdiv x (gl_dx gl);
       let sti = \<lfloor>qx\<rfloor>;
       qy \<leftarrow> fdiv y (gl_dy gl);
       let stj = \<lfloor>qy\<rfloor>;
       let sum = 0;
       t1 \<leftarrow> noise_term gl G x y sti stj;
       let sum = sum + t1;
       t2 \<leftarrow> noise_term gl G x y sti (stj + 1);
       let sum = sum + t2;
       t3 \<leftarrow> noise_term gl G x y (sti + 1) stj;
       let sum = sum + t3;
       t4 \<leftarrow> noise_term gl G x y (sti + 1) (stj + 1);
       let sum = sum + t4;
       Some sum
     }"

section \<open>The line integral convolution with noise\<close>

text \<open>The triangle filter \<^verbatim>\<open>filter\<close>.\<close>

definition filter_lic :: "globals \<Rightarrow> real \<Rightarrow> real option" where
  "filter_lic gl u =
     do {
       q \<leftarrow> fdiv \<bar>u\<bar> (gl_l gl);
       let f = 1 - q;
       Some (if f < 0 then 0 else f)
     }"

text \<open>
  The loop \<^verbatim>\<open>for (u = -l + step; u <= l; u += step)\<close> of \<^verbatim>\<open>lic_noise\<close>, on the
  variables \<open>u\<close>, \<open>f1\<close> and \<open>i\<close>. It does not end when \<open>step\<close> is not positive
  and \<open>u \<le> l\<close>. Over the reals the sum \<open>-l + isteps * step\<close> is \<open>l\<close>, so for a
  whole number \<open>isteps\<close> the loop runs \<open>isteps\<close> times; in doubles the sum can come out above \<open>l\<close>, and
  the program then leaves the last trapezoid out (for one step, as in
  \<open>isteps = 1\<close>, the sum is exact). The same holds of the loop of \<^verbatim>\<open>lic_image\<close>.
\<close>

partial_function (option) lic_noise_loop ::
  "globals \<Rightarrow> vector_grid \<Rightarrow> real \<Rightarrow> real \<Rightarrow> real \<Rightarrow> real \<Rightarrow> real \<Rightarrow> real \<Rightarrow> real \<Rightarrow> real \<Rightarrow> real option"
where
  "lic_noise_loop gl G xx yy c s step u f1 i =
     (if u \<le> gl_l gl then
        do {
          fu \<leftarrow> filter_lic gl u;
          n \<leftarrow> noise gl G (xx - u * c) (yy - u * s);
          lic_noise_loop gl G xx yy c s step (u + step) (fu * n) (i + (f1 + fu * n) * (1 / 2) * step)
        }
      else Some i)"

text \<open>
  The integral of \<^verbatim>\<open>lic_noise\<close>: everything up to the end of the loop.
\<close>

definition lic_noise_integral ::
  "globals \<Rightarrow> vector_grid \<Rightarrow> int \<Rightarrow> int \<Rightarrow> real \<Rightarrow> real \<Rightarrow> real option" where
  "lic_noise_integral gl G x y vx vy =
     do {
       step \<leftarrow> fdiv (2 * gl_l gl) (gl_isteps gl);
       let xx = real_of_int x;
       let yy = real_of_int y;
       let c = vx;
       let s = vy;
       f0 \<leftarrow> filter_lic gl (- gl_l gl);
       n0 \<leftarrow> noise gl G (xx + gl_l gl * c) (yy + gl_l gl * s);
       lic_noise_loop gl G xx yy c s step (- gl_l gl + step) (f0 * n0) 0
     }"

definition lic_noise :: "globals \<Rightarrow> vector_grid \<Rightarrow> int \<Rightarrow> int \<Rightarrow> real \<Rightarrow> real \<Rightarrow> real option" where
  "lic_noise gl G x y vx vy =
     do {
       i \<leftarrow> lic_noise_integral gl G x y vx vy;
       i \<leftarrow> fdiv (i - gl_minv gl) (gl_maxv gl - gl_minv gl);
       let i = CLAMP i 0 1;
       let i = i / 2 + 1 / 2;
       Some i
     }"

section \<open>The host library\<close>

text \<open>\<^verbatim>\<open>GimpHSL\<close>: the four doubles \<^verbatim>\<open>h\<close>, \<^verbatim>\<open>s\<close>, \<^verbatim>\<open>l\<close>, \<^verbatim>\<open>a\<close>.\<close>

record GimpHSL =
  hsl_h :: real
  hsl_s :: real
  hsl_l :: real
  hsl_a :: real

text \<open>
  A \<^verbatim>\<open>GeglBuffer\<close> read by \<^verbatim>\<open>peek\<close> and written by \<^verbatim>\<open>poke\<close>: the colour at
  each integer position in the format \<^verbatim>\<open>R'G'B'A double\<close>. Sampling is total
  (\<^verbatim>\<open>GEGL_ABYSS_NONE\<close>).
\<close>

type_synonym GeglBuffer = "int \<Rightarrow> int \<Rightarrow> GimpRGB"

definition peek :: "GeglBuffer \<Rightarrow> int \<Rightarrow> int \<Rightarrow> GimpRGB" where
  "peek buffer x y = buffer x y"

definition poke :: "GeglBuffer \<Rightarrow> int \<Rightarrow> int \<Rightarrow> GimpRGB \<Rightarrow> GeglBuffer" where
  "poke buffer x y color = buffer (x := (buffer x) (y := color))"

text \<open>
  What the host answers about a drawable: the results of
  \<^verbatim>\<open>gimp_drawable_get_width\<close>, \<^verbatim>\<open>gimp_drawable_get_height\<close>,
  \<^verbatim>\<open>gimp_drawable_is_rgb\<close>, \<^verbatim>\<open>gimp_drawable_has_alpha\<close>,
  \<^verbatim>\<open>gimp_drawable_mask_intersect\<close> (\<open>None\<close> for \<^verbatim>\<open>FALSE\<close>, else x, y, width,
  height), its buffer as doubles and as bytes (\<^verbatim>\<open>R'G'B'A u8\<close>), and its shadow
  buffer.
\<close>

record drawable =
  gimp_drawable_get_width :: int
  gimp_drawable_get_height :: int
  gimp_drawable_is_rgb :: bool
  gimp_drawable_has_alpha :: bool
  gimp_drawable_mask_intersect :: "(int \<times> int \<times> int \<times> int) option"
  gimp_drawable_get_buffer :: GeglBuffer
  buffer_u8 :: "int \<Rightarrow> int \<Rightarrow> guchar \<times> guchar \<times> guchar \<times> guchar"
  gimp_drawable_get_shadow_buffer :: GeglBuffer

text \<open>
  Functions of libgimp and libgimpcolor that the plug-in calls and whose code
  is not part of the plug-in: they are parameters of the model.
\<close>

record libgimp =
  gimp_bilinear_rgb :: "real \<Rightarrow> real \<Rightarrow> GimpRGB list \<Rightarrow> GimpRGB"
  gimp_bilinear_rgba :: "real \<Rightarrow> real \<Rightarrow> GimpRGB list \<Rightarrow> GimpRGB"
  gimp_rgb_add :: "GimpRGB \<Rightarrow> GimpRGB \<Rightarrow> GimpRGB"
  gimp_rgba_add :: "GimpRGB \<Rightarrow> GimpRGB \<Rightarrow> GimpRGB"
  gimp_rgb_clamp :: "GimpRGB \<Rightarrow> GimpRGB"
  gimp_rgba_set_uchar :: "guchar \<Rightarrow> guchar \<Rightarrow> guchar \<Rightarrow> guchar \<Rightarrow> GimpRGB"
  gimp_rgb_to_hsl :: "GimpRGB \<Rightarrow> GimpHSL"
  gimp_drawable_merge_shadow :: "drawable \<Rightarrow> GeglBuffer \<Rightarrow> drawable"

text \<open>
  Modelled from the spec: \<^verbatim>\<open>gimp_rgb_multiply\<close> and \<^verbatim>\<open>gimp_rgba_multiply\<close> of
  libgimpcolor are not among the sources. The spec has the pixel multiplied by
  the scalar channel-wise, the alpha being scaled like the colour when the
  source has an alpha channel: the first scales the three colour channels, the
  second all four.
\<close>

definition gimp_rgb_multiply :: "GimpRGB \<Rightarrow> real \<Rightarrow> GimpRGB" where
  "gimp_rgb_multiply rgb factor =
     rgb \<lparr> rgb_r := rgb_r rgb * factor, rgb_g := rgb_g rgb * factor, rgb_b := rgb_b rgb * factor \<rparr>"

text \<open>
  Modelled from the spec: \<^verbatim>\<open>gimp_rgba_multiply\<close> of libgimpcolor is not among the
  sources. It scales the alpha like the three colour channels.
\<close>

definition gimp_rgba_multiply :: "GimpRGB \<Rightarrow> real \<Rightarrow> GimpRGB" where
  "gimp_rgba_multiply rgba factor =
     rgba \<lparr> rgb_r := rgb_r rgba * factor, rgb_g := rgb_g rgba * factor,
            rgb_b := rgb_b rgba * factor, rgb_a := rgb_a rgba * factor \<rparr>"

text \<open>
  Modelled from the spec: the macros \<^verbatim>\<open>RINT\<close> and \<^verbatim>\<open>CLAMP0255\<close> of libgimpmath are
  not among the sources. The spec has the value rounded and clamped to
  \<open>[0, 255]\<close>; \<open>RINT\<close> rounds to the nearest integer, a tie going to the even one
  as C's \<^verbatim>\<open>rint\<close> does.
\<close>

definition RINT :: "real \<Rightarrow> real" where
  "RINT x =
     (let f = \<lfloor>x\<rfloor>; d = x - of_int f
      in of_int (if d < 1 / 2 then f else if 1 / 2 < d then f + 1
                 else if even f then f else f + 1))"

text \<open>
  Modelled from the spec: the macro \<^verbatim>\<open>CLAMP0255\<close> of libgimpmath is not among the
  sources. It clamps to \<open>[0, 255]\<close>.
\<close>

definition CLAMP0255 :: "real \<Rightarrow> real" where
  "CLAMP0255 v = CLAMP v 0 255"

text \<open>The casts \<^verbatim>\<open>(gint)\<close> and \<^verbatim>\<open>(guchar)\<close> of a double drop the fraction.\<close>

definition gint_of_double :: "real \<Rightarrow> int" where
  "gint_of_double u = (if 0 \<le> u then \<lfloor>u\<rfloor> else \<lceil>u\<rceil>)"

definition guchar_of_double :: "real \<Rightarrow> guchar" where
  "guchar_of_double v = word_of_int (gint_of_double v)"

section \<open>The line integral convolution with the source image\<close>

definition getpixel :: "globals \<Rightarrow> libgimp \<Rightarrow> GeglBuffer \<Rightarrow> real \<Rightarrow> real \<Rightarrow> GimpRGB option" where
  "getpixel gl lib buffer u v =
     do {
       let width = border_w gl;
       let height = border_h gl;
       let x1 = gint_of_double u;
       let y1 = gint_of_double v;
       x1 \<leftarrow> (if x1 < 0 then map_option (\<lambda>m. width - m) (c_mod (- x1) width)
              else c_mod x1 width);
       y1 \<leftarrow> (if y1 < 0 then map_option (\<lambda>m. height - m) (c_mod (- y1) height)
              else c_mod y1 height);
       x2 \<leftarrow> c_mod (x1 + 1) width;
       y2 \<leftarrow> c_mod (y1 + 1) height;
       let pp = [peek buffer x1 y1, peek buffer x2 y1, peek buffer x1 y2, peek buffer x2 y2];
       Some (if source_drw_has_alpha gl then gimp_bilinear_rgba lib u v pp
             else gimp_bilinear_rgb lib u v pp)
     }"

text \<open>The body of the loop of \<^verbatim>\<open>lic_image\<close>: the new \<open>col\<close> from \<open>col1\<close> and \<open>col2\<close>.\<close>

definition lic_image_accumulate ::
  "globals \<Rightarrow> libgimp \<Rightarrow> real \<Rightarrow> GimpRGB \<Rightarrow> GimpRGB \<Rightarrow> GimpRGB \<Rightarrow> GimpRGB" where
  "lic_image_accumulate gl lib step col col1 col2 =
     (if source_drw_has_alpha gl then
        (let col3 = col1;
             col3 = gimp_rgba_add lib col3 col2;
             col3 = gimp_rgba_multiply col3 (1 / 2 * step)
         in gimp_rgba_add lib col col3)
      else
        (let col3 = col1;
             col3 = gimp_rgb_add lib col3 col2;
             col3 = gimp_rgb_multiply col3 (1 / 2 * step)
         in gimp_rgb_add lib col col3))"

text \<open>
  The recurring \<^verbatim>\<open>if (source_drw_has_alpha) gimp_rgba_multiply (&c, f); else
  gimp_rgb_multiply (&c, f);\<close>
\<close>

definition multiply_by_alpha :: "globals \<Rightarrow> GimpRGB \<Rightarrow> real \<Rightarrow> GimpRGB" where
  "multiply_by_alpha gl color factor =
     (if source_drw_has_alpha gl then gimp_rgba_multiply color factor
      else gimp_rgb_multiply color factor)"

partial_function (option) lic_image_loop ::
  "globals \<Rightarrow> libgimp \<Rightarrow> GeglBuffer \<Rightarrow> real \<Rightarrow> real \<Rightarrow> real \<Rightarrow> real \<Rightarrow> real \<Rightarrow> real \<Rightarrow> GimpRGB \<Rightarrow> GimpRGB
     \<Rightarrow> GimpRGB option"
where
  "lic_image_loop gl lib buffer xx yy c s step u col1 col =
     (if u \<le> gl_l gl then
        do {
          col2 \<leftarrow> getpixel gl lib buffer (xx - u * c) (yy - u * s);
          fu \<leftarrow> filter_lic gl u;
          let col2 = multiply_by_alpha gl col2 fu;
          lic_image_loop gl lib buffer xx yy c s step (u + step) col2
            (lic_image_accumulate gl lib step col col1 col2)
        }
      else Some col)"

definition lic_image ::
  "globals \<Rightarrow> libgimp \<Rightarrow> GeglBuffer \<Rightarrow> int \<Rightarrow> int \<Rightarrow> real \<Rightarrow> real \<Rightarrow> GimpRGB option" where
  "lic_image gl lib buffer x y vx vy =
     do {
       step \<leftarrow> fdiv (2 * gl_l gl) (gl_isteps gl);
       let xx = real_of_int x;
       let yy = real_of_int y;
       let c = vx;
       let s = vy;
       let col = \<lparr> rgb_r = 0, rgb_g = 0, rgb_b = 0, rgb_a = 0 \<rparr>;
       col1 \<leftarrow> getpixel gl lib buffer (xx + gl_l gl * c) (yy + gl_l gl * s);
       f0 \<leftarrow> filter_lic gl (- gl_l gl);
       let col1 = multiply_by_alpha gl col1 f0;
       col \<leftarrow> lic_image_loop gl lib buffer xx yy c s step (- gl_l gl + step) col1 col;
       inv \<leftarrow> fdiv 1 (gl_l gl);
       let col = multiply_by_alpha gl col inv;
       Some (gimp_rgb_clamp lib col)
     }"

section \<open>The scalar map of the effect image\<close>

datatype LICEffectChannel = LIC_HUE | LIC_SATURATION | LIC_BRIGHTNESS

text \<open>
  A sequence of steps that can each have no result, run from left to right on a
  state: the shape of the counted \<^verbatim>\<open>for\<close> loops.
\<close>

fun for_each :: "('i \<Rightarrow> 's \<Rightarrow> 's option) \<Rightarrow> 'i list \<Rightarrow> 's \<Rightarrow> 's option" where
  "for_each body [] st = Some st"
| "for_each body (k # ks) st =
     (case body k st of None \<Rightarrow> None | Some st' \<Rightarrow> for_each body ks st')"

text \<open>
  The body of the loops of \<^verbatim>\<open>rgb_to_hsl\<close> at the pixel \<open>(x, y)\<close>, on the map and
  \<^verbatim>\<open>index\<close>. The draw of \<^verbatim>\<open>g_rand_double_range (gr, -1.0, 1.0)\<close> is the entry
  of the sequence \<open>rand\<close> for this pixel: one number is drawn per pixel. A write
  outside the allocated block has no defined result.
\<close>

definition rgb_to_hsl_pixel ::
  "libgimp \<Rightarrow> (nat \<Rightarrow> real) \<Rightarrow> drawable \<Rightarrow> LICEffectChannel \<Rightarrow> int \<Rightarrow> int
     \<Rightarrow> scalar_map \<times> nat \<Rightarrow> (scalar_map \<times> nat) option" where
  "rgb_to_hsl_pixel lib rand drw channel x y st =
     (case st of (themap, index) \<Rightarrow>
        (case buffer_u8 drw x y of (d0, d1, d2, d3) \<Rightarrow>
           (let color = gimp_rgba_set_uchar lib d0 d1 d2 d3;
                color_hsl = gimp_rgb_to_hsl lib color;
                val = (case channel of
                         LIC_HUE \<Rightarrow> hsl_h color_hsl * 255
                       | LIC_SATURATION \<Rightarrow> hsl_s color_hsl * 255
                       | LIC_BRIGHTNESS \<Rightarrow> hsl_l color_hsl * 255);
                val = val + rand index
            in if index < length themap
               then Some (themap [index := Some (guchar_of_double (CLAMP0255 (RINT val)))],
                          index + 1)
               else None)))"

definition rgb_to_hsl ::
  "globals \<Rightarrow> libgimp \<Rightarrow> (nat \<Rightarrow> real) \<Rightarrow> drawable \<Rightarrow> LICEffectChannel \<Rightarrow> scalar_map option" where
  "rgb_to_hsl gl lib rand drw channel =
     (let maxc = gimp_drawable_get_width drw * gimp_drawable_get_height drw;
          themap = replicate (nat maxc) None
      in map_option fst
           (for_each
              (\<lambda>y. for_each (\<lambda>x. rgb_to_hsl_pixel lib rand drw channel x y)
                     [0 .. border_w gl - 1])
              [0 .. border_h gl - 1] (themap, 0)))"

section \<open>The image pipeline\<close>

text \<open>
  The flow vector of \<^verbatim>\<open>compute_lic\<close>. \<open>rotate_flow\<close> is the block
  \<^verbatim>\<open>if (rotate) { tmp = vy; vy = -vx; vx = tmp; }\<close>, \<open>normalize_flow\<close> the block
  that divides by the length when it is at least \<open>0.000001\<close>.
\<close>

definition rotate_flow :: "bool \<Rightarrow> real \<times> real \<Rightarrow> real \<times> real" where
  "rotate_flow rot v = (case v of (vx, vy) \<Rightarrow> if rot then (vy, - vx) else (vx, vy))"

definition normalize_flow :: "real \<times> real \<Rightarrow> (real \<times> real) option" where
  "normalize_flow v =
     (case v of (vx, vy) \<Rightarrow>
        (let tmp = sqrt (vx * vx + vy * vy)
         in if tmp \<ge> 1 / 1000000
            then do { tmp \<leftarrow> fdiv 1 tmp; Some (vx * tmp, vy * tmp) }
            else Some (vx, vy)))"

definition flow_vector :: "globals \<Rightarrow> scalar_map \<Rightarrow> bool \<Rightarrow> int \<Rightarrow> int \<Rightarrow> (real \<times> real) option" where
  "flow_vector gl scalarfield rot xcount ycount =
     do {
       vx \<leftarrow> gradx gl scalarfield xcount ycount;
       vy \<leftarrow> grady gl scalarfield xcount ycount;
       normalize_flow (rotate_flow rot (real_of_int vx, real_of_int vy))
     }"

text \<open>The colour that \<^verbatim>\<open>compute_lic\<close> pokes at \<open>(xcount, ycount)\<close>.\<close>

definition compute_pixel ::
  "globals \<Rightarrow> libgimp \<Rightarrow> LicValues \<Rightarrow> vector_grid \<Rightarrow> GeglBuffer \<Rightarrow> scalar_map \<Rightarrow> bool
     \<Rightarrow> int \<Rightarrow> int \<Rightarrow> GimpRGB option" where
  "compute_pixel gl lib lv G src_buffer scalarfield rot xcount ycount =
     do {
       v \<leftarrow> flow_vector gl scalarfield rot xcount ycount;
       (if effect_convolve lv = 0 then
          do {
            let color = peek src_buffer xcount ycount;
            tmp \<leftarrow> lic_noise gl G xcount ycount (fst v) (snd v);
            Some (multiply_by_alpha gl color tmp)
          }
        else lic_image gl lib src_buffer xcount ycount (fst v) (snd v))
     }"

text \<open>
  \<^verbatim>\<open>compute_lic\<close>: the destination buffer after the two loops. The progress
  reports are not modelled.
\<close>

definition compute_lic ::
  "globals \<Rightarrow> libgimp \<Rightarrow> LicValues \<Rightarrow> vector_grid \<Rightarrow> drawable \<Rightarrow> scalar_map \<Rightarrow> bool
     \<Rightarrow> GeglBuffer option" where
  "compute_lic gl lib lv G drw scalarfield rot =
     (let src_buffer = gimp_drawable_get_buffer drw;
          dest_buffer = gimp_drawable_get_shadow_buffer drw
      in for_each
           (\<lambda>ycount. for_each
              (\<lambda>xcount dest.
                 map_option (poke dest xcount ycount)
                   (compute_pixel gl lib lv G src_buffer scalarfield rot xcount ycount))
              [0 .. border_w gl - 1])
           [0 .. border_h gl - 1] dest_buffer)"

text \<open>
  The state of the plug-in (\<^verbatim>\<open>licvals\<close>, the grid \<^verbatim>\<open>G\<close> and the other file-level
  variables) and of the host: the drawables by identifier, and the data stored
  under the procedure's name by \<^verbatim>\<open>gimp_set_data\<close>. A \<^verbatim>\<open>GimpDrawable *\<close> is the
  identifier of a drawable of the host, the null pointer an identifier the
  host does not know. The two functions of libgimp on identifiers are read
  off the host's table: \<^verbatim>\<open>gimp_item_id_is_valid\<close> holds of the identifiers in
  the table, and \<^verbatim>\<open>gimp_drawable_get_by_id\<close> returns the drawable of an
  identifier or the null pointer.
\<close>

record plugin =
  licvals :: LicValues
  globs :: globals
  grid :: vector_grid

record host =
  drawables :: "int \<rightharpoonup> drawable"
  stored_data :: "LicValues option"

definition gimp_drawable_get_by_id :: "host \<Rightarrow> int \<Rightarrow> drawable option" where
  "gimp_drawable_get_by_id h ident = drawables h ident"

definition gimp_item_id_is_valid :: "host \<Rightarrow> int \<Rightarrow> bool" where
  "gimp_item_id_is_valid h ident = (ident \<in> dom (drawables h))"

text \<open>
  \<^verbatim>\<open>compute_image\<close> on the drawable with identifier \<open>d\<close>. \<open>vectors\<close> is the grid
  that \<^verbatim>\<open>generatevectors\<close> draws, \<open>rand\<close> the numbers drawn in \<^verbatim>\<open>rgb_to_hsl\<close>.
  When \<^verbatim>\<open>gimp_drawable_get_by_id\<close> returns the null pointer the plug-in hands it
  to the host's accessors, which the sources do not define: no result. When
  no case of the \<^verbatim>\<open>switch\<close> matches, \<^verbatim>\<open>scalarfield\<close> stays the null pointer, a
  map without a cell.

  \<open>clamp_filtlen\<close> is the statement
  \<^verbatim>\<open>if (licvals.filtlen < 0.1) licvals.filtlen = 0.1;\<close>, \<open>assign_globals\<close> the
  assignments to the file-level variables that follow it, and
  \<open>effect_scalarfield\<close> the \<^verbatim>\<open>switch\<close> on \<^verbatim>\<open>licvals.effect_channel\<close>.
\<close>

definition clamp_filtlen :: "LicValues \<Rightarrow> LicValues" where
  "clamp_filtlen lv = (if filtlen lv < 1 / 10 then lv \<lparr> filtlen := 1 / 10 \<rparr> else lv)"

definition assign_globals ::
  "globals \<Rightarrow> LicValues \<Rightarrow> drawable \<Rightarrow> drawable \<Rightarrow> int \<Rightarrow> int \<Rightarrow> globals" where
  "assign_globals gl lv drw effect_image bw bh =
     gl \<lparr> gl_l := filtlen lv, gl_dx := noisemag lv, gl_dy := noisemag lv,
          gl_minv := lv_minv lv / 10, gl_maxv := lv_maxv lv / 10,
          gl_isteps := intsteps lv,
          source_drw_has_alpha := gimp_drawable_has_alpha drw,
          effect_width := gimp_drawable_get_width effect_image,
          effect_height := gimp_drawable_get_height effect_image,
          border_w := bw, border_h := bh \<rparr>"

definition effect_scalarfield ::
  "globals \<Rightarrow> libgimp \<Rightarrow> (nat \<Rightarrow> real) \<Rightarrow> drawable \<Rightarrow> LicValues \<Rightarrow> scalar_map option" where
  "effect_scalarfield gl lib rand effect_image lv =
     (if effect_channel lv = 0 then rgb_to_hsl gl lib rand effect_image LIC_HUE
      else if effect_channel lv = 1 then rgb_to_hsl gl lib rand effect_image LIC_SATURATION
      else if effect_channel lv = 2 then rgb_to_hsl gl lib rand effect_image LIC_BRIGHTNESS
      else Some [])"

definition compute_image ::
  "libgimp \<Rightarrow> vector_grid \<Rightarrow> (nat \<Rightarrow> real) \<Rightarrow> int \<Rightarrow> plugin \<times> host \<Rightarrow> (plugin \<times> host) option" where
  "compute_image lib vectors rand d st =
     (case st of (pl, h) \<Rightarrow>
      (case drawables h d of
         None \<Rightarrow> None
       | Some drw \<Rightarrow>
         (case gimp_drawable_mask_intersect drw of
            None \<Rightarrow> Some (pl, h)
          | Some (bx, by, bw, bh) \<Rightarrow>
            (let G = (if effect_convolve (licvals pl) = 0 then vectors else grid pl);
                 lv = clamp_filtlen (licvals pl)
             in (case gimp_drawable_get_by_id h (effect_image_id lv) of
                   None \<Rightarrow> None
                 | Some effect_image \<Rightarrow>
                   (let gl = assign_globals (globs pl) lv drw effect_image bw bh
                    in do {
                         scalarfield \<leftarrow> effect_scalarfield gl lib rand effect_image lv;
                         dest \<leftarrow> compute_lic gl lib lv G drw scalarfield (effect_operator lv \<noteq> 0);
                         Some (\<lparr> licvals = lv, globs = gl, grid = G \<rparr>,
                               h \<lparr> drawables := (drawables h)
                                     (d \<mapsto> gimp_drawable_merge_shadow lib drw dest) \<rparr>)
                       }))))))"

section \<open>The procedure\<close>

datatype GimpRunMode = GIMP_RUN_INTERACTIVE | GIMP_RUN_NONINTERACTIVE | GIMP_RUN_WITH_LAST_VALS

datatype GimpPDBStatusType =
  GIMP_PDB_EXECUTION_ERROR | GIMP_PDB_CALLING_ERROR | GIMP_PDB_PASS_THROUGH
  | GIMP_PDB_SUCCESS | GIMP_PDB_CANCEL

definition set_default_settings :: LicValues where
  "set_default_settings =
     \<lparr> filtlen = 5, noisemag = 2, intsteps = 25, lv_minv = - 25, lv_maxv = 25,
       effect_channel = 2, effect_operator = 1, effect_convolve = 1, effect_image_id = - 1 \<rparr>"

text \<open>
  The radio group "Effect Operator" of \<^verbatim>\<open>create_main_dialog\<close>: the labels and
  the values they store in \<^verbatim>\<open>licvals.effect_operator\<close>.
\<close>

definition effect_operator_group :: "(string \<times> int) list" where
  "effect_operator_group = [(''_Derivative'', 0), (''_Gradient'', 1)]"

text \<open>
  The start of \<^verbatim>\<open>lic_run\<close>: the default values, replaced by the stored ones
  when \<^verbatim>\<open>gimp_get_data\<close> finds some, and the identifier of the effect image
  replaced by \<open>-1\<close> when the host does not know it.
\<close>

definition retrieve_settings :: "host \<Rightarrow> LicValues" where
  "retrieve_settings h =
     (let lv = set_default_settings;
          lv = (case stored_data h of None \<Rightarrow> lv | Some stored \<Rightarrow> stored)
      in if \<not> gimp_item_id_is_valid h (effect_image_id lv)
         then lv \<lparr> effect_image_id := - 1 \<rparr> else lv)"

text \<open>
  \<^verbatim>\<open>lic_run\<close>. \<open>dialog\<close> stands for \<^verbatim>\<open>create_main_dialog\<close>: from the values
  shown, whether the user confirmed and the values the widgets left in
  \<^verbatim>\<open>licvals\<close>. \<open>drws\<close> is the array \<^verbatim>\<open>drawables\<close>, of identifiers.
\<close>

definition lic_run ::
  "libgimp \<Rightarrow> vector_grid \<Rightarrow> (nat \<Rightarrow> real) \<Rightarrow> (LicValues \<Rightarrow> bool \<times> LicValues)
     \<Rightarrow> GimpRunMode \<Rightarrow> int \<Rightarrow> int list \<Rightarrow> plugin \<times> host
     \<Rightarrow> (GimpPDBStatusType \<times> plugin \<times> host) option" where
  "lic_run lib vectors rand dialog run_mode n_drawables drws st =
     (case st of (pl, h) \<Rightarrow>
        if n_drawables \<noteq> 1 then Some (GIMP_PDB_CALLING_ERROR, pl, h)
        else
          (case drws of
             [] \<Rightarrow> None
           | d # _ \<Rightarrow>
             (let pl = pl \<lparr> licvals := retrieve_settings h \<rparr>
              in (case drawables h d of
                    None \<Rightarrow> None
                  | Some drw \<Rightarrow>
                    if gimp_drawable_is_rgb drw then
                      (case run_mode of
                         GIMP_RUN_INTERACTIVE \<Rightarrow>
                           (case dialog (licvals pl) of (run, lv) \<Rightarrow>
                              if \<not> run then Some (GIMP_PDB_CANCEL, pl \<lparr> licvals := lv \<rparr>, h)
                              else
                                (case compute_image lib vectors rand d (pl \<lparr> licvals := lv \<rparr>, h) of
                                   None \<Rightarrow> None
                                 | Some (pl', h') \<Rightarrow>
                                   Some (GIMP_PDB_SUCCESS, pl',
                                         h' \<lparr> stored_data := Some (licvals pl') \<rparr>)))
                       | GIMP_RUN_WITH_LAST_VALS \<Rightarrow>
                           (case compute_image lib vectors rand d (pl, h) of
                              None \<Rightarrow> None
                            | Some (pl', h') \<Rightarrow> Some (GIMP_PDB_SUCCESS, pl', h'))
                       | GIMP_RUN_NONINTERACTIVE \<Rightarrow> Some (GIMP_PDB_SUCCESS, pl, h))
                    else Some (GIMP_PDB_EXECUTION_ERROR, pl, h)))))"

section \<open>Example values\<close>

text \<open>
  Concrete values on which the theorems below are exercised. \<open>lib0\<close> gives the
  library parameters simple instances: nearest-corner resampling, channel-wise
  addition, clamping to \<open>[0, 1]\<close>, bytes scaled by \<open>1 / 255\<close>, the lightness
  \<open>(max + min) / 2\<close> with hue and saturation 0, and a merge that replaces the
  buffer by the shadow buffer.
\<close>

definition lib0 :: libgimp where
  "lib0 =
     \<lparr> gimp_bilinear_rgb = (\<lambda>u v pp. pp ! 0),
       gimp_bilinear_rgba = (\<lambda>u v pp. pp ! 0),
       gimp_rgb_add = (\<lambda>c d. c \<lparr> rgb_r := rgb_r c + rgb_r d, rgb_g := rgb_g c + rgb_g d,
                                   rgb_b := rgb_b c + rgb_b d \<rparr>),
       gimp_rgba_add = (\<lambda>c d. \<lparr> rgb_r = rgb_r c + rgb_r d, rgb_g = rgb_g c + rgb_g d,
                                  rgb_b = rgb_b c + rgb_b d, rgb_a = rgb_a c + rgb_a d \<rparr>),
       gimp_rgb_clamp = (\<lambda>c. \<lparr> rgb_r = CLAMP (rgb_r c) 0 1, rgb_g = CLAMP (rgb_g c) 0 1,
                                 rgb_b = CLAMP (rgb_b c) 0 1, rgb_a = CLAMP (rgb_a c) 0 1 \<rparr>),
       gimp_rgba_set_uchar = (\<lambda>r g b a. \<lparr> rgb_r = real_of_int (uint r) / 255,
                                            rgb_g = real_of_int (uint g) / 255,
                                            rgb_b = real_of_int (uint b) / 255,
                                            rgb_a = real_of_int (uint a) / 255 \<rparr>),
       gimp_rgb_to_hsl = (\<lambda>c. \<lparr> hsl_h = 0, hsl_s = 0,
                                  hsl_l = (max (rgb_r c) (max (rgb_g c) (rgb_b c))
                                           + min (rgb_r c) (min (rgb_g c) (rgb_b c))) / 2,
                                  hsl_a = rgb_a c \<rparr>),
       gimp_drawable_merge_shadow = (\<lambda>drw dest. drw \<lparr> gimp_drawable_get_buffer := dest \<rparr>) \<rparr>"

text \<open>A grid whose vectors all point along the x axis, and a generator that adds nothing.\<close>

definition G0 :: vector_grid where
  "G0 = (\<lambda>i j. (1, 0))"

definition rand0 :: "nat \<Rightarrow> real" where
  "rand0 = (\<lambda>k. 0)"

text \<open>A dialog that the user confirms without a change.\<close>

definition dialog0 :: "LicValues \<Rightarrow> bool \<times> LicValues" where
  "dialog0 = (\<lambda>lv. (True, lv))"

text \<open>
  A grey drawable: the pixel \<open>(x, y)\<close> has the byte \<open>10 * x + 100 * y\<close> in its
  three colour channels. \<open>gray_drawable w h rgb\<close> is \<open>w\<close> by \<open>h\<close> pixels, without
  a selection.
\<close>

definition gray_drawable :: "int \<Rightarrow> int \<Rightarrow> bool \<Rightarrow> drawable" where
  "gray_drawable w h rgb =
     \<lparr> gimp_drawable_get_width = w,
       gimp_drawable_get_height = h,
       gimp_drawable_is_rgb = rgb,
       gimp_drawable_has_alpha = False,
       gimp_drawable_mask_intersect = Some (0, 0, w, h),
       gimp_drawable_get_buffer =
         (\<lambda>x y. \<lparr> rgb_r = real_of_int (10 * x + 100 * y) / 255,
                   rgb_g = real_of_int (10 * x + 100 * y) / 255,
                   rgb_b = real_of_int (10 * x + 100 * y) / 255, rgb_a = 1 \<rparr>),
       buffer_u8 =
         (\<lambda>x y. (word_of_int (10 * x + 100 * y), word_of_int (10 * x + 100 * y),
                  word_of_int (10 * x + 100 * y), 255)),
       gimp_drawable_get_shadow_buffer =
         (\<lambda>x y. \<lparr> rgb_r = 0, rgb_g = 0, rgb_b = 0, rgb_a = 0 \<rparr>) \<rparr>"

definition plugin0 :: plugin where
  "plugin0 = \<lparr> licvals = set_default_settings, globs = initial_globals, grid = (\<lambda>i j. (0, 0)) \<rparr>"

text \<open>A host with one indexed (not RGB) drawable, 2 by 2, under the identifier 1.\<close>

definition host_indexed :: host where
  "host_indexed = \<lparr> drawables = [1 \<mapsto> gray_drawable 2 2 False], stored_data = None \<rparr>"

text \<open>File-level variables for an effect image of 3 by 3 pixels.\<close>

definition gl33 :: globals where
  "gl33 = initial_globals \<lparr> effect_width := 3, effect_height := 3 \<rparr>"

text \<open>
  File-level variables for one integration step of length \<open>2 * l = 2\<close> over an
  effect image of 3 by 3 pixels.
\<close>

definition gl_one_step :: globals where
  "gl_one_step = gl33 \<lparr> gl_l := 1, gl_isteps := 1 \<rparr>"

text \<open>A host with one RGB drawable, 1 by 1, under the identifier 1, and nothing stored.\<close>

definition host_rgb :: host where
  "host_rgb = \<lparr> drawables = [1 \<mapsto> gray_drawable 1 1 True], stored_data = None \<rparr>"

text \<open>
  Settings within the ranges of the dialog, with the minimum and the maximum
  value both 0, and the file-level variables that \<^verbatim>\<open>compute_image\<close> derives from
  them for a drawable of 3 by 3 pixels that is its own effect image.
\<close>

definition lv_flat :: LicValues where
  "lv_flat = set_default_settings
     \<lparr> filtlen := 1, intsteps := 1, lv_minv := 0, lv_maxv := 0, effect_convolve := 0 \<rparr>"

definition gl_flat :: globals where
  "gl_flat = assign_globals initial_globals (clamp_filtlen lv_flat)
               (gray_drawable 3 3 True) (gray_drawable 3 3 True) 3 3"

text \<open>
  File-level variables for an effect image of 3 by 2 pixels and a processed
  rectangle of 2 by 2 pixels.
\<close>

definition gl_selection :: globals where
  "gl_selection =
     initial_globals \<lparr> effect_width := 3, effect_height := 2, border_w := 2, border_h := 2 \<rparr>"

text \<open>
  A drawable of 3 by 1 pixels, grey, with the bytes 0, 10 and 50 from left to
  right, and a host that has it under the identifier 1, with nothing stored.
\<close>

definition stripe_byte :: "int \<Rightarrow> guchar" where
  "stripe_byte x = (if x = 1 then 10 else if x = 2 then 50 else 0)"

definition stripes :: drawable where
  "stripes =
     \<lparr> gimp_drawable_get_width = 3,
       gimp_drawable_get_height = 1,
       gimp_drawable_is_rgb = True,
       gimp_drawable_has_alpha = False,
       gimp_drawable_mask_intersect = Some (0, 0, 3, 1),
       gimp_drawable_get_buffer =
         (\<lambda>x y. \<lparr> rgb_r = real_of_int (uint (stripe_byte x)) / 255,
                   rgb_g = real_of_int (uint (stripe_byte x)) / 255,
                   rgb_b = real_of_int (uint (stripe_byte x)) / 255, rgb_a = 1 \<rparr>),
       buffer_u8 = (\<lambda>x y. (stripe_byte x, stripe_byte x, stripe_byte x, 255)),
       gimp_drawable_get_shadow_buffer =
         (\<lambda>x y. \<lparr> rgb_r = 0, rgb_g = 0, rgb_b = 0, rgb_a = 0 \<rparr>) \<rparr>"

definition host_stripes :: host where
  "host_stripes = \<lparr> drawables = [1 \<mapsto> stripes], stored_data = None \<rparr>"

text \<open>
  Settings that take this drawable as the effect image and convolve with the
  source image over four steps of length 1, under each of the two operators;
  the default settings with the noise source; and the latter with one step and
  the minimum and the maximum value both 0.
\<close>

definition lv_stripes :: "int \<Rightarrow> LicValues" where
  "lv_stripes operator =
     set_default_settings
       \<lparr> filtlen := 2, intsteps := 4, effect_operator := operator, effect_image_id := 1 \<rparr>"

definition lv_stripes_noise :: LicValues where
  "lv_stripes_noise = set_default_settings \<lparr> effect_convolve := 0, effect_image_id := 1 \<rparr>"

definition lv_stripes_flat :: LicValues where
  "lv_stripes_flat = lv_stripes_noise \<lparr> intsteps := 1, lv_minv := 0, lv_maxv := 0 \<rparr>"

text \<open>
  The file-level variables that \<^verbatim>\<open>compute_image\<close> assigns for these settings,
  the plug-in states that hold them, and the scalar map of the drawable.
\<close>

definition gl_stripes :: "LicValues \<Rightarrow> globals" where
  "gl_stripes lv = assign_globals initial_globals (clamp_filtlen lv) stripes stripes 3 1"

definition plugin_stripes :: "LicValues \<Rightarrow> plugin" where
  "plugin_stripes lv = plugin0 \<lparr> licvals := lv \<rparr>"

definition field_stripes :: scalar_map where
  "field_stripes = [Some 0, Some 10, Some 50]"

text \<open>The colour of a pixel of the drawable \<open>d\<close> after a run, when the run has a result.\<close>

definition run_pixel :: "(plugin \<times> host) option \<Rightarrow> int \<Rightarrow> int \<Rightarrow> int \<Rightarrow> GimpRGB option" where
  "run_pixel res d x y =
     (case res of
        None \<Rightarrow> None
      | Some (pl, h) \<Rightarrow> map_option (\<lambda>drw. gimp_drawable_get_buffer drw x y) (drawables h d))"

section \<open>Properties of the scalar map access\<close>

lemma add_while_negative_result:
  assumes "0 < w"
  shows "\<exists>r k. add_while_negative x w = Some r \<and> 0 \<le> r \<and> (x < 0 \<longrightarrow> r < w)
           \<and> (0 \<le> x \<longrightarrow> r = x) \<and> r = x + k * w"
proof (induction "nat (- x)" arbitrary: x rule: less_induct)
  case less
  show ?case
  proof (cases "x < 0")
    case False
    then have "add_while_negative x w = Some x"
      by (subst add_while_negative.simps) simp
    then show ?thesis
      using False by (intro exI [of _ x] exI [of _ 0]) simp
  next
    case True
    have unfold: "add_while_negative x w = add_while_negative (x + w) w"
      using True by (subst add_while_negative.simps) simp
    have "nat (- (x + w)) < nat (- x)"
      using assms True by simp
    from less [OF this] obtain r' k' where
      rk: "add_while_negative (x + w) w = Some r'" "0 \<le> r'" "x + w < 0 \<longrightarrow> r' < w"
        "0 \<le> x + w \<longrightarrow> r' = x + w" "r' = (x + w) + k' * w"
      by blast
    have "r' < w"
      using rk(3,4) True by (cases "x + w < 0") simp_all
    moreover have "r' = x + (k' + 1) * w"
      using rk(5) by (simp add: algebra_simps)
    ultimately show ?thesis
      using rk(1,2) True unfold by (intro exI [of _ r'] exI [of _ "k' + 1"]) simp
  qed
qed

lemma wrap_coordinate:
  assumes "0 < w"
  shows "add_while_negative x w \<bind> (\<lambda>x1. c_mod x1 w) = Some (x mod w)"
proof -
  obtain r k where rk: "add_while_negative x w = Some r" "0 \<le> r" "r = x + k * w"
    using add_while_negative_result [OF assms, of x] by blast
  have "r smod w = r mod w"
    using rk(2) assms by (simp add: smod_int_alt_def sgn_if)
  also have "\<dots> = x mod w" using rk(3) by simp
  finally show ?thesis using rk(1) assms by (simp add: c_mod_def)
qed

lemma peekmap_wrapped:
  assumes "0 < effect_width gl" "0 < effect_height gl"
  shows "peekmap gl img x y =
           read_map img (x mod effect_width gl + effect_width gl * (y mod effect_height gl))"
proof -
  have "peekmap gl img x y =
          (add_while_negative x (effect_width gl) \<bind> (\<lambda>x1. c_mod x1 (effect_width gl))) \<bind>
            (\<lambda>x2. (add_while_negative y (effect_height gl) \<bind> (\<lambda>y1. c_mod y1 (effect_height gl))) \<bind>
              (\<lambda>y2. read_map img (x2 + effect_width gl * y2)))"
    by (simp add: peekmap_def)
  then show ?thesis
    by (simp add: wrap_coordinate [OF assms(1)] wrap_coordinate [OF assms(2)])
qed

lemma read_map_const:
  assumes "0 \<le> k" "k < int (length img)" "\<forall>cell \<in> set img. cell = Some c"
  shows "read_map img k = Some (uint c)"
proof -
  have "img ! nat k \<in> set img" using assms(1,2) by (intro nth_mem) simp
  then have "img ! nat k = Some c" using assms(3) by blast
  then show ?thesis using assms(1,2) by (simp add: read_map_def)
qed

lemma wrapped_index_bounds:
  fixes w h x y :: int
  assumes "0 < w" "0 < h"
  shows "0 \<le> x mod w + w * (y mod h)" "x mod w + w * (y mod h) < w * h"
proof -
  have x: "0 \<le> x mod w" "x mod w \<le> w - 1" using assms(1) by simp_all
  have y: "0 \<le> y mod h" "y mod h \<le> h - 1" using assms(2) by simp_all
  have "0 \<le> w * (y mod h)" using assms(1) y(1) by simp
  then show "0 \<le> x mod w + w * (y mod h)" using x(1) by simp
  have "w * (y mod h) \<le> w * (h - 1)" using assms(1) y(2) by (intro mult_left_mono) simp_all
  then show "x mod w + w * (y mod h) < w * h" using x(2) by (simp add: algebra_simps)
qed

lemma peekmap_const:
  assumes "0 < effect_width gl" "0 < effect_height gl"
    and "length img = nat (effect_width gl * effect_height gl)"
    and "\<forall>cell \<in> set img. cell = Some c"
  shows "peekmap gl img x y = Some (uint c)"
proof -
  have "0 < effect_width gl * effect_height gl" using assms(1,2) by simp
  then have len: "int (length img) = effect_width gl * effect_height gl"
    using assms(3) by simp
  show ?thesis
    unfolding peekmap_wrapped [OF assms(1,2)]
    using wrapped_index_bounds [OF assms(1,2), of x y] assms(4) len
    by (intro read_map_const) simp_all
qed

section \<open>Properties of the noise function\<close>

lemma add_numx_while_negative_result:
  "0 \<le> add_numx_while_negative i \<and> (\<exists>k. add_numx_while_negative i = i + k * numx)"
proof (induction i rule: add_numx_while_negative.induct)
  case (1 i)
  show ?case
  proof (cases "i < 0")
    case True
    from 1 [OF True] obtain k where
      k: "0 \<le> add_numx_while_negative (i + numx)" "add_numx_while_negative (i + numx) = i + numx + k * numx"
      by blast
    have unfold: "add_numx_while_negative i = add_numx_while_negative (i + numx)"
      using True by (subst add_numx_while_negative.simps) simp
    have "add_numx_while_negative i = i + (k + 1) * numx"
      using k(2) unfold by (simp add: algebra_simps)
    then show ?thesis using k(1) unfold by auto
  next
    case False
    have "add_numx_while_negative i = i"
      using False by (subst add_numx_while_negative.simps) simp
    then show ?thesis using False by (intro conjI exI [of _ 0]) simp_all
  qed
qed

lemma add_numy_while_negative_result:
  "0 \<le> add_numy_while_negative j \<and> (\<exists>k. add_numy_while_negative j = j + k * numy)"
proof (induction j rule: add_numy_while_negative.induct)
  case (1 j)
  show ?case
  proof (cases "j < 0")
    case True
    from 1 [OF True] obtain k where
      k: "0 \<le> add_numy_while_negative (j + numy)" "add_numy_while_negative (j + numy) = j + numy + k * numy"
      by blast
    have unfold: "add_numy_while_negative j = add_numy_while_negative (j + numy)"
      using True by (subst add_numy_while_negative.simps) simp
    have "add_numy_while_negative j = j + (k + 1) * numy"
      using k(2) unfold by (simp add: algebra_simps)
    then show ?thesis using k(1) unfold by auto
  next
    case False
    have "add_numy_while_negative j = j"
      using False by (subst add_numy_while_negative.simps) simp
    then show ?thesis using False by (intro conjI exI [of _ 0]) simp_all
  qed
qed

lemma smod_of_nonneg:
  fixes k w :: int
  assumes "0 \<le> k" "0 < w"
  shows "k smod w = k mod w"
  using assms by (simp add: smod_int_alt_def sgn_if)

lemma wrap_numx: "add_numx_while_negative i smod numx = i mod numx"
proof -
  obtain k where k: "0 \<le> add_numx_while_negative i" "add_numx_while_negative i = i + k * numx"
    using add_numx_while_negative_result [of i] by blast
  have "add_numx_while_negative i smod numx = add_numx_while_negative i mod numx"
    using k(1) by (intro smod_of_nonneg) (simp_all add: numx_def)
  also have "\<dots> = i mod numx" by (simp add: k(2))
  finally show ?thesis .
qed

lemma wrap_numy: "add_numy_while_negative j smod numy = j mod numy"
proof -
  obtain k where k: "0 \<le> add_numy_while_negative j" "add_numy_while_negative j = j + k * numy"
    using add_numy_while_negative_result [of j] by blast
  have "add_numy_while_negative j smod numy = add_numy_while_negative j mod numy"
    using k(1) by (intro smod_of_nonneg) (simp_all add: numy_def)
  also have "\<dots> = j mod numy" by (simp add: k(2))
  finally show ?thesis .
qed

lemma omega_wrapped:
  "omega G u v i j =
     cubic u * cubic v * (fst (G (i mod numx) (j mod numy)) * u + snd (G (i mod numx) (j mod numy)) * v)"
  by (simp add: omega_def Let_def wrap_numx wrap_numy)

lemma omega_periodic: "omega G u v (i + numx) j = omega G u v i j"
  by (simp add: omega_wrapped)

lemma noise_term_shift:
  assumes "gl_dx gl \<noteq> 0"
  shows "noise_term gl G (x + real_of_int numx * gl_dx gl) y (i + numx) j = noise_term gl G x y i j"
proof -
  have "x + real_of_int numx * gl_dx gl - real_of_int (i + numx) * gl_dx gl
          = x - real_of_int i * gl_dx gl"
    by (simp add: algebra_simps)
  then show ?thesis
    by (simp only: noise_term_def omega_periodic)
qed

lemma noise_term_some:
  assumes "gl_dx gl \<noteq> 0" "gl_dy gl \<noteq> 0"
  shows "noise_term gl G x y i j =
           Some (omega G ((x - of_int i * gl_dx gl) / gl_dx gl) ((y - of_int j * gl_dy gl) / gl_dy gl) i j)"
  using assms by (simp add: noise_term_def fdiv_def)

lemma noise_some:
  assumes "gl_dx gl \<noteq> 0" "gl_dy gl \<noteq> 0"
  shows "\<exists>n. noise gl G x y = Some n"
  using assms by (simp add: noise_def fdiv_def noise_term_some Let_def)

lemma floor_shift:
  assumes "gl_dx gl \<noteq> 0"
  shows "\<lfloor>(x + real_of_int numx * gl_dx gl) / gl_dx gl\<rfloor> = \<lfloor>x / gl_dx gl\<rfloor> + numx"
proof -
  have "(x + real_of_int numx * gl_dx gl) / gl_dx gl = x / gl_dx gl + real_of_int numx"
    using assms by (simp add: field_simps)
  then show ?thesis by simp
qed

lemma noise_periodic:
  assumes "gl_dx gl \<noteq> 0"
  shows "noise gl G (x + real_of_int numx * gl_dx gl) y = noise gl G x y"
proof -
  let ?x' = "x + real_of_int numx * gl_dx gl"
  have q: "fdiv ?x' (gl_dx gl) = Some (x / gl_dx gl + real_of_int numx)"
    using assms by (simp add: fdiv_def field_simps)
  have q0: "fdiv x (gl_dx gl) = Some (x / gl_dx gl)"
    using assms by (simp add: fdiv_def)
  have fl: "\<lfloor>x / gl_dx gl + real_of_int numx\<rfloor> = \<lfloor>x / gl_dx gl\<rfloor> + numx"
    by simp
  have s: "noise_term gl G ?x' y (i + numx) j = noise_term gl G x y i j" for i j
    by (rule noise_term_shift [OF assms])
  have s': "noise_term gl G ?x' y (i + numx + 1) j = noise_term gl G x y (i + 1) j" for i j
  proof -
    have "i + numx + 1 = (i + 1) + numx" by simp
    then show ?thesis by (simp only: s)
  qed
  show ?thesis
    by (simp only: noise_def q q0 fl s s' Let_def bind.bind_lunit)
qed

section \<open>Properties of the flow vector\<close>

lemma unit_length_after_scaling:
  fixes gx gy m :: real
  assumes "m * m = gx * gx + gy * gy" "m \<noteq> 0"
  shows "gx * (1 / m) * (gx * (1 / m)) + gy * (1 / m) * (gy * (1 / m)) = 1"
proof -
  have "gx * (1 / m) * (gx * (1 / m)) + gy * (1 / m) * (gy * (1 / m))
          = (gx * gx + gy * gy) / (m * m)"
    by (simp add: add_divide_distrib)
  also have "\<dots> = (m * m) / (m * m)" by (simp only: assms(1))
  also have "\<dots> = 1" using assms(2) by simp
  finally show ?thesis .
qed

lemma sqrt_25: "sqrt (3 * 3 + 4 * 4) = 5"
proof -
  have "sqrt (3 * 3 + 4 * 4) = sqrt (5\<^sup>2)" by simp
  also have "\<dots> = 5" by (simp only: real_sqrt_abs abs_numeral)
  finally show ?thesis .
qed

section \<open>Properties of the convolution with noise\<close>

lemma filter_lic_some:
  assumes "gl_l gl \<noteq> 0"
  shows "filter_lic gl u = Some (if 1 - \<bar>u\<bar> / gl_l gl < 0 then 0 else 1 - \<bar>u\<bar> / gl_l gl)"
  using assms by (simp add: filter_lic_def fdiv_def Let_def)

lemma lic_noise_loop_exit:
  assumes "gl_l gl < u"
  shows "lic_noise_loop gl G xx yy c s step u f1 i = Some i"
  using assms by (subst lic_noise_loop.simps) simp

lemma lic_noise_loop_step:
  assumes "u \<le> gl_l gl" "filter_lic gl u = Some fu" "noise gl G (xx - u * c) (yy - u * s) = Some n"
  shows "lic_noise_loop gl G xx yy c s step u f1 i =
           lic_noise_loop gl G xx yy c s step (u + step) (fu * n) (i + (f1 + fu * n) * (1 / 2) * step)"
  using assms by (subst lic_noise_loop.simps) simp

lemma lic_noise_loop_terminates:
  assumes "0 < step" "gl_l gl \<noteq> 0" "gl_dx gl \<noteq> 0" "gl_dy gl \<noteq> 0"
  shows "\<exists>I. lic_noise_loop gl G xx yy c s step u f1 i = Some I"
proof (induction "nat (\<lfloor>(gl_l gl - u) / step\<rfloor> + 1)" arbitrary: u f1 i rule: less_induct)
  case less
  show ?case
  proof (cases "u \<le> gl_l gl")
    case False
    then show ?thesis by (simp add: lic_noise_loop_exit)
  next
    case True
    obtain fu where fu: "filter_lic gl u = Some fu"
      using filter_lic_some [OF assms(2)] by blast
    obtain n where n: "noise gl G (xx - u * c) (yy - u * s) = Some n"
      using noise_some [OF assms(3,4)] by blast
    have "0 \<le> (gl_l gl - u) / step" using True assms(1) by simp
    then have nonneg: "0 \<le> \<lfloor>(gl_l gl - u) / step\<rfloor>" by simp
    have "(gl_l gl - (u + step)) / step = (gl_l gl - u) / step - 1"
      using assms(1) by (simp add: field_simps)
    then have "\<lfloor>(gl_l gl - (u + step)) / step\<rfloor> = \<lfloor>(gl_l gl - u) / step\<rfloor> - 1"
      by simp
    then have "nat (\<lfloor>(gl_l gl - (u + step)) / step\<rfloor> + 1) < nat (\<lfloor>(gl_l gl - u) / step\<rfloor> + 1)"
      using nonneg by simp
    from less [OF this] show ?thesis
      by (simp only: lic_noise_loop_step [OF True fu n])
  qed
qed

lemma CLAMP_bounds:
  assumes "low \<le> high"
  shows "low \<le> CLAMP x low high" "CLAMP x low high \<le> high"
  using assms by (simp_all add: CLAMP_def)

lemma lic_noise_integral_some:
  assumes "0 < gl_l gl" "0 < gl_isteps gl" "gl_dx gl \<noteq> 0" "gl_dy gl \<noteq> 0"
  shows "\<exists>I. lic_noise_integral gl G x y vx vy = Some I"
proof -
  have l0: "gl_l gl \<noteq> 0" using assms(1) by simp
  have step: "fdiv (2 * gl_l gl) (gl_isteps gl) = Some (2 * gl_l gl / gl_isteps gl)"
    using assms(2) by (simp add: fdiv_def)
  have pos: "0 < 2 * gl_l gl / gl_isteps gl" using assms(1,2) by simp
  obtain f0 where f0: "filter_lic gl (- gl_l gl) = Some f0"
    using filter_lic_some [OF l0] by blast
  obtain n0 where n0: "noise gl G (real_of_int x + gl_l gl * vx) (real_of_int y + gl_l gl * vy) = Some n0"
    using noise_some [OF assms(3,4)] by blast
  show ?thesis
    using lic_noise_loop_terminates [OF pos l0 assms(3,4)]
    by (simp add: lic_noise_integral_def step f0 n0 Let_def)
qed

lemma lic_noise_some:
  assumes "lic_noise_integral gl G x y vx vy = Some I" "gl_minv gl \<noteq> gl_maxv gl"
  shows "lic_noise gl G x y vx vy
           = Some (CLAMP ((I - gl_minv gl) / (gl_maxv gl - gl_minv gl)) 0 1 / 2 + 1 / 2)"
  using assms by (simp add: lic_noise_def fdiv_def Let_def)

lemma lic_noise_integral_single_step:
  assumes "gl_isteps gl = 1" "0 < gl_l gl"
    and fa: "filter_lic gl (- gl_l gl) = Some fa"
    and na: "noise gl G (real_of_int x + gl_l gl * vx) (real_of_int y + gl_l gl * vy) = Some na"
    and fb: "filter_lic gl (gl_l gl) = Some fb"
    and nb: "noise gl G (real_of_int x - gl_l gl * vx) (real_of_int y - gl_l gl * vy) = Some nb"
  shows "lic_noise_integral gl G x y vx vy = Some ((fa * na + fb * nb) * (1 / 2) * (2 * gl_l gl))"
proof -
  let ?l = "gl_l gl"
  let ?xx = "real_of_int x" and ?yy = "real_of_int y"
  have step: "fdiv (2 * ?l) (gl_isteps gl) = Some (2 * ?l)"
    by (simp add: fdiv_def assms(1))
  have start: "- ?l + 2 * ?l = ?l" by simp
  have after: "?l < ?l + 2 * ?l" using assms(2) by simp
  have "lic_noise_loop gl G ?xx ?yy vx vy (2 * ?l) ?l (fa * na) 0
          = lic_noise_loop gl G ?xx ?yy vx vy (2 * ?l) (?l + 2 * ?l) (fb * nb)
              (0 + (fa * na + fb * nb) * (1 / 2) * (2 * ?l))"
    by (rule lic_noise_loop_step [OF _ fb nb]) simp
  also have "\<dots> = Some (0 + (fa * na + fb * nb) * (1 / 2) * (2 * ?l))"
    by (rule lic_noise_loop_exit [OF after])
  finally have loop: "lic_noise_loop gl G ?xx ?yy vx vy (2 * ?l) ?l (fa * na) 0
                        = Some ((fa * na + fb * nb) * (1 / 2) * (2 * ?l))"
    by simp
  show ?thesis
    by (simp only: lic_noise_integral_def step fa na Let_def bind.bind_lunit start loop)
qed

section \<open>Properties of the example values\<close>

lemma gl_flat_fields:
  "gl_l gl_flat = 1" "gl_isteps gl_flat = 1" "gl_dx gl_flat = 2" "gl_dy gl_flat = 2"
  "gl_minv gl_flat = 0" "gl_maxv gl_flat = 0"
  by (simp_all add: gl_flat_def assign_globals_def clamp_filtlen_def lv_flat_def
      set_default_settings_def)

lemma lic_noise_integral_flat: "lic_noise_integral gl_flat G0 1 1 (- 1) 0 = Some 0"
proof -
  have l0: "gl_l gl_flat \<noteq> 0" by (simp add: gl_flat_fields)
  have fa: "filter_lic gl_flat (- gl_l gl_flat) = Some 0"
    by (simp add: filter_lic_some [OF l0] gl_flat_fields)
  have fb: "filter_lic gl_flat (gl_l gl_flat) = Some 0"
    by (simp add: filter_lic_some [OF l0] gl_flat_fields)
  have ns: "\<exists>n. noise gl_flat G0 x y = Some n" for x y
    by (rule noise_some) (simp_all add: gl_flat_fields)
  obtain na where
    na: "noise gl_flat G0 (real_of_int 1 + gl_l gl_flat * (- 1)) (real_of_int 1 + gl_l gl_flat * 0)
           = Some na"
    using ns by blast
  obtain nb where
    nb: "noise gl_flat G0 (real_of_int 1 - gl_l gl_flat * (- 1)) (real_of_int 1 - gl_l gl_flat * 0)
           = Some nb"
    using ns by blast
  have "lic_noise_integral gl_flat G0 1 1 (- 1) 0
          = Some ((0 * na + 0 * nb) * (1 / 2) * (2 * gl_l gl_flat))"
    by (rule lic_noise_integral_single_step [OF _ _ fa na fb nb]) (simp_all add: gl_flat_fields)
  then show ?thesis by simp
qed

lemma upto_0_1: "[0 .. 2 - 1] = [0, 1::int]"
  by (simp add: upto.simps)

lemma RINT_of_int: "RINT (real_of_int k) = real_of_int k"
  by (simp add: RINT_def)

lemma guchar_of_int: "guchar_of_double (real_of_int k) = word_of_int k"
  by (simp add: guchar_of_double_def gint_of_double_def)

lemma byte_through_lightness:
  fixes c :: guchar
  shows "guchar_of_double (CLAMP0255 (RINT (
           hsl_l (gimp_rgb_to_hsl lib0 (gimp_rgba_set_uchar lib0 c c c 255)) * 255 + rand0 k))) = c"
proof -
  have v: "hsl_l (gimp_rgb_to_hsl lib0 (gimp_rgba_set_uchar lib0 c c c 255)) * 255 + rand0 k
             = real_of_int (uint c)"
    by (simp add: lib0_def rand0_def)
  have "uint c < 2 ^ 8" using uint_bounded [of c] by simp
  then have range: "0 \<le> real_of_int (uint c)" "real_of_int (uint c) \<le> 255"
    using uint_nonnegative [of c] by (simp_all del: of_int_uint)
  have "CLAMP0255 (real_of_int (uint c)) = real_of_int (uint c)"
    using range by (simp add: CLAMP0255_def CLAMP_def del: of_int_uint)
  then show ?thesis
    by (simp only: v RINT_of_int guchar_of_int word_of_int_uint)
qed

lemma rgb_to_hsl_pixel_gray:
  assumes "index < length themap"
  shows "rgb_to_hsl_pixel lib0 rand0 (gray_drawable w h rgb) LIC_BRIGHTNESS x y (themap, index)
           = Some (themap [index := Some (word_of_int (10 * x + 100 * y))], index + 1)"
  using assms
  by (simp only: rgb_to_hsl_pixel_def Let_def gray_drawable_def drawable.simps prod.case
      LICEffectChannel.case byte_through_lightness if_True)

lemma retrieve_settings_host_rgb:
  "retrieve_settings host_rgb = set_default_settings"
  by (simp add: retrieve_settings_def host_rgb_def set_default_settings_def
      gimp_item_id_is_valid_def)

section \<open>Properties of the loops over the rectangle\<close>

lemma for_each_row:
  assumes "for_each (\<lambda>x dest. map_option (poke dest x y) (cp x)) xs d0 = Some d"
  shows "(\<forall>x \<in> set xs. cp x \<noteq> None)
         \<and> (\<forall>x' y'. d x' y' = (if x' \<in> set xs \<and> y' = y then the (cp x') else d0 x' y'))"
  using assms
proof (induction xs arbitrary: d0)
  case Nil
  then show ?case by simp
next
  case (Cons k ks)
  from Cons.prems obtain c where c: "cp k = Some c"
    by (cases "cp k") simp_all
  from Cons.prems c have rest:
    "for_each (\<lambda>x dest. map_option (poke dest x y) (cp x)) ks (poke d0 k y c) = Some d"
    by simp
  note ih = Cons.IH [OF rest]
  have "\<forall>x \<in> set (k # ks). cp x \<noteq> None" using ih c by simp
  moreover have "d x' y' = (if x' \<in> set (k # ks) \<and> y' = y then the (cp x') else d0 x' y')"
    for x' y'
    using ih c by (simp add: poke_def)
  ultimately show ?case by blast
qed

lemma for_each_row_some:
  assumes "\<forall>x \<in> set xs. cp x \<noteq> None"
  shows "\<exists>d. for_each (\<lambda>x dest. map_option (poke dest x y) (cp x)) xs d0 = Some d"
  using assms
proof (induction xs arbitrary: d0)
  case Nil
  then show ?case by simp
next
  case (Cons k ks)
  then obtain c where c: "cp k = Some c" by auto
  from Cons.IH [of "poke d0 k y c"] Cons.prems show ?case
    by (simp add: c)
qed

lemma for_each_rows:
  assumes "for_each (\<lambda>y. for_each (\<lambda>x dest. map_option (poke dest x y) (cp x y)) xs) ys d0 = Some d"
  shows "(\<forall>y \<in> set ys. \<forall>x \<in> set xs. cp x y \<noteq> None)
         \<and> (\<forall>x' y'. d x' y' = (if x' \<in> set xs \<and> y' \<in> set ys then the (cp x' y') else d0 x' y'))"
  using assms
proof (induction ys arbitrary: d0)
  case Nil
  then show ?case by simp
next
  case (Cons k ks)
  from Cons.prems obtain d1 where
    row: "for_each (\<lambda>x dest. map_option (poke dest x k) (cp x k)) xs d0 = Some d1"
    by (cases "for_each (\<lambda>x dest. map_option (poke dest x k) (cp x k)) xs d0") simp_all
  from Cons.prems row have rest:
    "for_each (\<lambda>y. for_each (\<lambda>x dest. map_option (poke dest x y) (cp x y)) xs) ks d1 = Some d"
    by simp
  note ih = Cons.IH [OF rest]
  note r = for_each_row [OF row]
  have "\<forall>y \<in> set (k # ks). \<forall>x \<in> set xs. cp x y \<noteq> None"
    using ih r by simp
  moreover have "d x' y' = (if x' \<in> set xs \<and> y' \<in> set (k # ks) then the (cp x' y') else d0 x' y')"
    for x' y'
    using ih r by auto
  ultimately show ?case by blast
qed

lemma for_each_rows_some:
  assumes "\<forall>y \<in> set ys. \<forall>x \<in> set xs. cp x y \<noteq> None"
  shows "\<exists>d. for_each (\<lambda>y. for_each (\<lambda>x dest. map_option (poke dest x y) (cp x y)) xs) ys d0 = Some d"
  using assms
proof (induction ys arbitrary: d0)
  case Nil
  then show ?case by simp
next
  case (Cons k ks)
  then have "\<forall>x \<in> set xs. cp x k \<noteq> None" by simp
  from for_each_row_some [OF this, of k d0] obtain d1 where
    row: "for_each (\<lambda>x dest. map_option (poke dest x k) (cp x k)) xs d0 = Some d1"
    by blast
  from Cons.IH [of d1] Cons.prems show ?case
    by (simp add: row)
qed

lemma compute_lic_pixel:
  assumes "compute_lic gl lib lv G drw scalarfield rot = Some dest"
    and "0 \<le> x" "x < border_w gl" "0 \<le> y" "y < border_h gl"
  shows "compute_pixel gl lib lv G (gimp_drawable_get_buffer drw) scalarfield rot x y
           = Some (dest x y)"
proof -
  let ?cp = "compute_pixel gl lib lv G (gimp_drawable_get_buffer drw) scalarfield rot"
  from assms(1) have
    "for_each (\<lambda>y. for_each (\<lambda>x dest. map_option (poke dest x y) (?cp x y))
                     [0 .. border_w gl - 1])
       [0 .. border_h gl - 1] (gimp_drawable_get_shadow_buffer drw) = Some dest"
    by (simp add: compute_lic_def Let_def)
  note r = for_each_rows [OF this]
  have mem: "x \<in> set [0 .. border_w gl - 1]" "y \<in> set [0 .. border_h gl - 1]"
    using assms(2-5) by simp_all
  from r mem have "?cp x y \<noteq> None" by blast
  moreover from r mem have "dest x y = the (?cp x y)" by simp
  ultimately show ?thesis by auto
qed

lemma compute_lic_some:
  assumes "\<And>x y. 0 \<le> x \<Longrightarrow> x < border_w gl \<Longrightarrow> 0 \<le> y \<Longrightarrow> y < border_h gl \<Longrightarrow>
             compute_pixel gl lib lv G (gimp_drawable_get_buffer drw) scalarfield rot x y \<noteq> None"
  shows "\<exists>dest. compute_lic gl lib lv G drw scalarfield rot = Some dest"
proof -
  let ?cp = "compute_pixel gl lib lv G (gimp_drawable_get_buffer drw) scalarfield rot"
  have "\<forall>y \<in> set [0 .. border_h gl - 1]. \<forall>x \<in> set [0 .. border_w gl - 1]. ?cp x y \<noteq> None"
    using assms by simp
  from for_each_rows_some [OF this] show ?thesis
    by (simp add: compute_lic_def Let_def)
qed

section \<open>Properties of a run of the pipeline\<close>

lemma compute_image_unfold:
  assumes "compute_image lib vectors rand d (pl, h) = Some (pl', h')"
    and "drawables h d = Some drw"
    and "gimp_drawable_mask_intersect drw = Some (bx, by, bw, bh)"
  shows "\<exists>effect_image scalarfield dest.
           gimp_drawable_get_by_id h (effect_image_id (licvals pl)) = Some effect_image
           \<and> licvals pl' = clamp_filtlen (licvals pl)
           \<and> globs pl' = assign_globals (globs pl) (clamp_filtlen (licvals pl)) drw effect_image bw bh
           \<and> grid pl' = (if effect_convolve (licvals pl) = 0 then vectors else grid pl)
           \<and> effect_scalarfield (globs pl') lib rand effect_image (licvals pl') = Some scalarfield
           \<and> compute_lic (globs pl') lib (licvals pl') (grid pl') drw scalarfield
                (effect_operator (licvals pl) \<noteq> 0) = Some dest
           \<and> h' = h \<lparr> drawables := (drawables h) (d \<mapsto> gimp_drawable_merge_shadow lib drw dest) \<rparr>"
proof -
  let ?lv = "clamp_filtlen (licvals pl)"
  have id: "effect_image_id ?lv = effect_image_id (licvals pl)"
    and op: "effect_operator ?lv = effect_operator (licvals pl)"
    by (simp_all add: clamp_filtlen_def)
  from assms obtain effect_image where
    e: "gimp_drawable_get_by_id h (effect_image_id (licvals pl)) = Some effect_image"
    by (cases "gimp_drawable_get_by_id h (effect_image_id (licvals pl))")
       (simp_all add: compute_image_def Let_def id)
  let ?gl = "assign_globals (globs pl) ?lv drw effect_image bw bh"
  let ?G = "if effect_convolve (licvals pl) = 0 then vectors else grid pl"
  from assms e obtain scalarfield where
    sf: "effect_scalarfield ?gl lib rand effect_image ?lv = Some scalarfield"
    by (cases "effect_scalarfield ?gl lib rand effect_image ?lv")
       (simp_all add: compute_image_def Let_def id)
  from assms e sf obtain dest where
    dest: "compute_lic ?gl lib ?lv ?G drw scalarfield (effect_operator (licvals pl) \<noteq> 0) = Some dest"
    by (cases "compute_lic ?gl lib ?lv ?G drw scalarfield (effect_operator (licvals pl) \<noteq> 0)")
       (simp_all add: compute_image_def Let_def id op)
  from assms e sf dest have
    res: "pl' = \<lparr> licvals = ?lv, globs = ?gl, grid = ?G \<rparr>"
         "h' = h \<lparr> drawables := (drawables h) (d \<mapsto> gimp_drawable_merge_shadow lib drw dest) \<rparr>"
    by (simp_all add: compute_image_def Let_def id op)
  show ?thesis
    using e sf dest res by (intro exI [of _ effect_image] exI [of _ scalarfield] exI [of _ dest]) simp
qed

lemma compute_image_some:
  assumes "drawables h d = Some drw"
    and "gimp_drawable_mask_intersect drw = Some (bx, by, bw, bh)"
    and "gimp_drawable_get_by_id h (effect_image_id (licvals pl)) = Some effect_image"
    and "effect_scalarfield
           (assign_globals (globs pl) (clamp_filtlen (licvals pl)) drw effect_image bw bh)
           lib rand effect_image (clamp_filtlen (licvals pl)) = Some scalarfield"
    and "compute_lic
           (assign_globals (globs pl) (clamp_filtlen (licvals pl)) drw effect_image bw bh)
           lib (clamp_filtlen (licvals pl))
           (if effect_convolve (licvals pl) = 0 then vectors else grid pl) drw scalarfield
           (effect_operator (licvals pl) \<noteq> 0) = Some dest"
  shows "compute_image lib vectors rand d (pl, h) =
           Some (\<lparr> licvals = clamp_filtlen (licvals pl),
                   globs = assign_globals (globs pl) (clamp_filtlen (licvals pl)) drw effect_image bw bh,
                   grid = (if effect_convolve (licvals pl) = 0 then vectors else grid pl) \<rparr>,
                 h \<lparr> drawables := (drawables h) (d \<mapsto> gimp_drawable_merge_shadow lib drw dest) \<rparr>)"
proof -
  have id: "effect_image_id (clamp_filtlen (licvals pl)) = effect_image_id (licvals pl)"
    and op: "effect_operator (clamp_filtlen (licvals pl)) = effect_operator (licvals pl)"
    by (simp_all add: clamp_filtlen_def)
  show ?thesis
    using assms by (simp add: compute_image_def Let_def id op)
qed

lemma compute_image_none:
  assumes "drawables h d = Some drw"
    and "gimp_drawable_mask_intersect drw = Some (bx, by, bw, bh)"
    and "gimp_drawable_get_by_id h (effect_image_id (licvals pl)) = Some effect_image"
    and "effect_scalarfield
           (assign_globals (globs pl) (clamp_filtlen (licvals pl)) drw effect_image bw bh)
           lib rand effect_image (clamp_filtlen (licvals pl)) = Some scalarfield"
    and "compute_lic
           (assign_globals (globs pl) (clamp_filtlen (licvals pl)) drw effect_image bw bh)
           lib (clamp_filtlen (licvals pl))
           (if effect_convolve (licvals pl) = 0 then vectors else grid pl) drw scalarfield
           (effect_operator (licvals pl) \<noteq> 0) = None"
  shows "compute_image lib vectors rand d (pl, h) = None"
proof -
  have id: "effect_image_id (clamp_filtlen (licvals pl)) = effect_image_id (licvals pl)"
    and op: "effect_operator (clamp_filtlen (licvals pl)) = effect_operator (licvals pl)"
    by (simp_all add: clamp_filtlen_def)
  show ?thesis
    using assms by (simp add: compute_image_def Let_def id op)
qed

lemma compute_lic_none:
  assumes "compute_pixel gl lib lv G (gimp_drawable_get_buffer drw) scalarfield rot x y = None"
    and "0 \<le> x" "x < border_w gl" "0 \<le> y" "y < border_h gl"
  shows "compute_lic gl lib lv G drw scalarfield rot = None"
proof (cases "compute_lic gl lib lv G drw scalarfield rot")
  case None
  then show ?thesis .
next
  case (Some dest)
  from compute_lic_pixel [OF Some assms(2-5)] assms(1) show ?thesis by simp
qed

lemma peekmap_full:
  assumes "0 < effect_width gl" "0 < effect_height gl"
    and "length img = nat (effect_width gl * effect_height gl)"
    and "\<forall>cell \<in> set img. cell \<noteq> None"
  shows "\<exists>p. peekmap gl img x y = Some p"
proof -
  let ?k = "x mod effect_width gl + effect_width gl * (y mod effect_height gl)"
  have "0 < effect_width gl * effect_height gl" using assms(1,2) by simp
  then have len: "int (length img) = effect_width gl * effect_height gl"
    using assms(3) by simp
  have b: "0 \<le> ?k" "?k < int (length img)"
    using wrapped_index_bounds [OF assms(1,2), of x y] len by simp_all
  then have "img ! nat ?k \<in> set img" by (intro nth_mem) simp
  then obtain c where "img ! nat ?k = Some c" using assms(4) by auto
  then show ?thesis
    unfolding peekmap_wrapped [OF assms(1,2)] using b by (simp add: read_map_def)
qed

lemma flow_vector_some:
  assumes "0 < effect_width gl" "0 < effect_height gl"
    and "length img = nat (effect_width gl * effect_height gl)"
    and "\<forall>cell \<in> set img. cell \<noteq> None"
  shows "\<exists>v. flow_vector gl img rot x y = Some v"
proof -
  note pk = peekmap_full [OF assms]
  obtain p1 p2 p3 p4 p5 p6 where
    "peekmap gl img (x - 1) (y - 1) = Some p1" "peekmap gl img (x + 1) (y - 1) = Some p2"
    "peekmap gl img (x - 1) y = Some p3" "peekmap gl img (x + 1) y = Some p4"
    "peekmap gl img (x - 1) (y + 1) = Some p5" "peekmap gl img (x + 1) (y + 1) = Some p6"
    using pk by metis
  then have gx: "\<exists>gx. gradx gl img x y = Some gx"
    by (simp add: gradx_def)
  obtain q1 q2 q3 q4 q5 q6 where
    "peekmap gl img (x - 1) (y - 1) = Some q1" "peekmap gl img x (y - 1) = Some q2"
    "peekmap gl img (x + 1) (y - 1) = Some q3" "peekmap gl img (x - 1) (y + 1) = Some q4"
    "peekmap gl img x (y + 1) = Some q5" "peekmap gl img (x + 1) (y + 1) = Some q6"
    using pk by metis
  then have gy: "\<exists>gy. grady gl img x y = Some gy"
    by (simp add: grady_def)
  from gx gy obtain gx gy where g: "gradx gl img x y = Some gx" "grady gl img x y = Some gy"
    by blast
  have "\<exists>v. normalize_flow w = Some v" for w
    by (cases w) (auto simp add: normalize_flow_def fdiv_def Let_def)
  then show ?thesis
    by (simp add: flow_vector_def g)
qed

lemma compute_pixel_noise_some:
  assumes "0 < effect_width gl" "0 < effect_height gl"
    and "length img = nat (effect_width gl * effect_height gl)"
    and "\<forall>cell \<in> set img. cell \<noteq> None"
    and "0 < gl_l gl" "0 < gl_isteps gl" "gl_dx gl \<noteq> 0" "gl_dy gl \<noteq> 0"
    and "gl_minv gl \<noteq> gl_maxv gl" "effect_convolve lv = 0"
  shows "compute_pixel gl lib lv G src img rot x y \<noteq> None"
proof -
  obtain v where v: "flow_vector gl img rot x y = Some v"
    using flow_vector_some [OF assms(1-4)] by blast
  obtain I where I: "lic_noise_integral gl G x y (fst v) (snd v) = Some I"
    using lic_noise_integral_some [OF assms(5-8)] by blast
  show ?thesis
    by (simp add: compute_pixel_def v assms(10) lic_noise_some [OF I assms(9)])
qed

lemma compute_pixel_parts:
  assumes "compute_pixel gl lib lv G src scalarfield rot x y = Some color"
  shows "\<exists>gx gy v.
           gradx gl scalarfield x y = Some gx \<and> grady gl scalarfield x y = Some gy
           \<and> normalize_flow (if rot then (real_of_int gy, - real_of_int gx)
                              else (real_of_int gx, real_of_int gy)) = Some v
           \<and> flow_vector gl scalarfield rot x y = Some v
           \<and> (if effect_convolve lv = 0
               then map_option (multiply_by_alpha gl (peek src x y)) (lic_noise gl G x y (fst v) (snd v))
               else lic_image gl lib src x y (fst v) (snd v)) = Some color"
proof -
  have "\<exists>v. flow_vector gl scalarfield rot x y = Some v
          \<and> (if effect_convolve lv = 0
               then map_option (multiply_by_alpha gl (peek src x y)) (lic_noise gl G x y (fst v) (snd v))
               else lic_image gl lib src x y (fst v) (snd v)) = Some color"
  proof (cases "effect_convolve lv = 0")
    case True
    with assms show ?thesis
      by (auto simp add: compute_pixel_def Let_def bind_eq_Some_conv)
  next
    case False
    with assms show ?thesis
      by (auto simp add: compute_pixel_def Let_def bind_eq_Some_conv)
  qed
  then obtain v where
    v: "flow_vector gl scalarfield rot x y = Some v"
    and c': "(if effect_convolve lv = 0
              then map_option (multiply_by_alpha gl (peek src x y)) (lic_noise gl G x y (fst v) (snd v))
              else lic_image gl lib src x y (fst v) (snd v)) = Some color"
    by blast
  from v obtain gx gy where
    g: "gradx gl scalarfield x y = Some gx" "grady gl scalarfield x y = Some gy"
    and n: "normalize_flow (rotate_flow rot (real_of_int gx, real_of_int gy)) = Some v"
    by (auto simp add: flow_vector_def bind_eq_Some_conv)
  have n': "normalize_flow (if rot then (real_of_int gy, - real_of_int gx)
                            else (real_of_int gx, real_of_int gy)) = Some v"
    using n by (simp add: rotate_flow_def)
  show ?thesis using g n' v c' by blast
qed

lemma getpixel_some:
  assumes "border_w gl \<noteq> 0" "border_h gl \<noteq> 0"
  shows "\<exists>p. getpixel gl lib buffer u v = Some p"
  using assms by (simp add: getpixel_def c_mod_def Let_def)

lemma lic_image_loop_exit:
  assumes "gl_l gl < u"
  shows "lic_image_loop gl lib buffer xx yy c s step u col1 col = Some col"
  using assms by (subst lic_image_loop.simps) simp

lemma lic_image_loop_step:
  assumes "u \<le> gl_l gl" "getpixel gl lib buffer (xx - u * c) (yy - u * s) = Some col2"
    "filter_lic gl u = Some fu"
  shows "lic_image_loop gl lib buffer xx yy c s step u col1 col =
           lic_image_loop gl lib buffer xx yy c s step (u + step) (multiply_by_alpha gl col2 fu)
             (lic_image_accumulate gl lib step col col1 (multiply_by_alpha gl col2 fu))"
  using assms by (subst lic_image_loop.simps) (simp add: Let_def)

lemma lic_image_loop_terminates:
  assumes "0 < step" "gl_l gl \<noteq> 0" "border_w gl \<noteq> 0" "border_h gl \<noteq> 0"
  shows "\<exists>res. lic_image_loop gl lib buffer xx yy c s step u col1 col = Some res"
proof (induction "nat (\<lfloor>(gl_l gl - u) / step\<rfloor> + 1)" arbitrary: u col1 col rule: less_induct)
  case less
  show ?case
  proof (cases "u \<le> gl_l gl")
    case False
    then show ?thesis by (simp add: lic_image_loop_exit)
  next
    case True
    obtain fu where fu: "filter_lic gl u = Some fu"
      using filter_lic_some [OF assms(2)] by blast
    obtain col2 where col2: "getpixel gl lib buffer (xx - u * c) (yy - u * s) = Some col2"
      using getpixel_some [OF assms(3,4)] by blast
    have "0 \<le> (gl_l gl - u) / step" using True assms(1) by simp
    then have nonneg: "0 \<le> \<lfloor>(gl_l gl - u) / step\<rfloor>" by simp
    have "(gl_l gl - (u + step)) / step = (gl_l gl - u) / step - 1"
      using assms(1) by (simp add: field_simps)
    then have "\<lfloor>(gl_l gl - (u + step)) / step\<rfloor> = \<lfloor>(gl_l gl - u) / step\<rfloor> - 1"
      by simp
    then have "nat (\<lfloor>(gl_l gl - (u + step)) / step\<rfloor> + 1) < nat (\<lfloor>(gl_l gl - u) / step\<rfloor> + 1)"
      using nonneg by simp
    from less [OF this] show ?thesis
      by (simp only: lic_image_loop_step [OF True col2 fu])
  qed
qed

lemma lic_image_some:
  assumes "0 < gl_l gl" "0 < gl_isteps gl" "border_w gl \<noteq> 0" "border_h gl \<noteq> 0"
  shows "\<exists>res. lic_image gl lib buffer x y vx vy = Some res"
proof -
  have l0: "gl_l gl \<noteq> 0" using assms(1) by simp
  have step: "fdiv (2 * gl_l gl) (gl_isteps gl) = Some (2 * gl_l gl / gl_isteps gl)"
    using assms(2) by (simp add: fdiv_def)
  have pos: "0 < 2 * gl_l gl / gl_isteps gl" using assms(1,2) by simp
  obtain f0 where f0: "filter_lic gl (- gl_l gl) = Some f0"
    using filter_lic_some [OF l0] by blast
  obtain col1 where col1: "getpixel gl lib buffer (real_of_int x + gl_l gl * vx)
                             (real_of_int y + gl_l gl * vy) = Some col1"
    using getpixel_some [OF assms(3,4)] by blast
  obtain res where loop:
    "lic_image_loop gl lib buffer (real_of_int x) (real_of_int y) vx vy (2 * gl_l gl / gl_isteps gl)
       (- gl_l gl + 2 * gl_l gl / gl_isteps gl) (multiply_by_alpha gl col1 f0)
       \<lparr> rgb_r = 0, rgb_g = 0, rgb_b = 0, rgb_a = 0 \<rparr> = Some res"
    using lic_image_loop_terminates [OF pos l0 assms(3,4)] by blast
  have inv: "fdiv 1 (gl_l gl) = Some (1 / gl_l gl)"
    using l0 by (simp add: fdiv_def)
  show ?thesis
    by (simp only: lic_image_def step f0 col1 Let_def bind.bind_lunit loop inv) simp
qed

lemma compute_pixel_image_some:
  assumes "0 < effect_width gl" "0 < effect_height gl"
    and "length img = nat (effect_width gl * effect_height gl)"
    and "\<forall>cell \<in> set img. cell \<noteq> None"
    and "0 < gl_l gl" "0 < gl_isteps gl" "border_w gl \<noteq> 0" "border_h gl \<noteq> 0"
    and "effect_convolve lv \<noteq> 0"
  shows "compute_pixel gl lib lv G src img rot x y \<noteq> None"
proof -
  obtain v where v: "flow_vector gl img rot x y = Some v"
    using flow_vector_some [OF assms(1-4)] by blast
  obtain res where "lic_image gl lib src x y (fst v) (snd v) = Some res"
    using lic_image_some [OF assms(5-8)] by blast
  then show ?thesis
    by (simp add: compute_pixel_def v assms(9))
qed

section \<open>A run on the striped drawable\<close>

lemma gl_stripes_fields:
  "effect_width (gl_stripes lv) = 3" "effect_height (gl_stripes lv) = 1"
  "border_w (gl_stripes lv) = 3" "border_h (gl_stripes lv) = 1"
  "source_drw_has_alpha (gl_stripes lv) = False"
  "gl_l (gl_stripes lv) = filtlen (clamp_filtlen lv)"
  "gl_isteps (gl_stripes lv) = intsteps lv"
  "gl_dx (gl_stripes lv) = noisemag lv" "gl_dy (gl_stripes lv) = noisemag lv"
  "gl_minv (gl_stripes lv) = lv_minv lv / 10" "gl_maxv (gl_stripes lv) = lv_maxv lv / 10"
  by (simp_all add: gl_stripes_def assign_globals_def stripes_def clamp_filtlen_def)

lemma rgb_to_hsl_pixel_stripes:
  assumes "index < length themap"
  shows "rgb_to_hsl_pixel lib0 rand0 stripes LIC_BRIGHTNESS x y (themap, index)
           = Some (themap [index := Some (stripe_byte x)], index + 1)"
  using assms
  by (simp only: rgb_to_hsl_pixel_def Let_def stripes_def drawable.simps prod.case
      LICEffectChannel.case byte_through_lightness if_True)

lemma upto_0_2: "[0 .. 3 - 1] = [0, 1, 2::int]"
  by (simp add: upto.simps)

lemma upto_0_0: "[0 .. 1 - 1] = [0::int]"
  by (simp add: upto.simps)

lemma rgb_to_hsl_stripes:
  "rgb_to_hsl (gl_stripes lv) lib0 rand0 stripes LIC_BRIGHTNESS = Some field_stripes"
proof -
  have size: "gimp_drawable_get_width stripes * gimp_drawable_get_height stripes = 3"
    by (simp add: stripes_def)
  have rep: "replicate (nat 3) None = [None, None, (None :: guchar option)]"
    by (simp add: numeral_eq_Suc)
  show ?thesis
    unfolding rgb_to_hsl_def Let_def gl_stripes_fields size rep upto_0_2 upto_0_0
    by (simp add: rgb_to_hsl_pixel_stripes stripe_byte_def field_stripes_def)
qed

lemma peekmap_stripes:
  "peekmap (gl_stripes lv) field_stripes x y
     = Some (if x mod 3 = 0 then 0 else if x mod 3 = 1 then 10 else 50)"
proof -
  have w: "0 < effect_width (gl_stripes lv)" "0 < effect_height (gl_stripes lv)"
    by (simp_all add: gl_stripes_fields)
  have "x mod 3 \<in> {0, 1, 2}" by auto
  then show ?thesis
    unfolding peekmap_wrapped [OF w]
    by (auto simp add: gl_stripes_fields field_stripes_def read_map_def)
qed

lemma gradx_stripes: "gradx (gl_stripes lv) field_stripes 1 0 = Some (- 200)"
  by (simp add: gradx_def peekmap_stripes)

lemma grady_stripes: "grady (gl_stripes lv) field_stripes 1 0 = Some 0"
  by (simp add: grady_def peekmap_stripes)

lemma sqrt_40000: "sqrt 40000 = 200"
proof -
  have "sqrt 40000 = sqrt (200\<^sup>2)" by simp
  also have "\<dots> = 200" by (simp only: real_sqrt_abs abs_numeral)
  finally show ?thesis .
qed

lemma flow_stripes_unrotated: "flow_vector (gl_stripes lv) field_stripes False 1 0 = Some (- 1, 0)"
  by (simp add: flow_vector_def gradx_stripes grady_stripes rotate_flow_def normalize_flow_def
      sqrt_40000 fdiv_def)

lemma flow_stripes_rotated: "flow_vector (gl_stripes lv) field_stripes True 1 0 = Some (0, 1)"
  by (simp add: flow_vector_def gradx_stripes grady_stripes rotate_flow_def normalize_flow_def
      sqrt_40000 fdiv_def)

lemma stripes_fields_image:
  "gl_l (gl_stripes (lv_stripes op)) = 2" "gl_isteps (gl_stripes (lv_stripes op)) = 4"
  "effect_convolve (lv_stripes op) = 1" "effect_operator (lv_stripes op) = op"
  "effect_channel (lv_stripes op) = 2" "effect_image_id (lv_stripes op) = 1"
  by (simp_all add: gl_stripes_fields lv_stripes_def clamp_filtlen_def set_default_settings_def)

lemma getpixel_stripes:
  "getpixel (gl_stripes lv) lib0 (gimp_drawable_get_buffer stripes) u v
     = Some (gimp_drawable_get_buffer stripes
              (if gint_of_double u < 0 then 3 - (- gint_of_double u) smod 3
               else gint_of_double u smod 3) 0)"
  by (simp add: getpixel_def gl_stripes_fields c_mod_def lib0_def peek_def stripes_def Let_def)

lemma filter_stripes:
  "filter_lic (gl_stripes (lv_stripes op)) u = Some (if 1 - \<bar>u\<bar> / 2 < 0 then 0 else 1 - \<bar>u\<bar> / 2)"
  by (simp add: filter_lic_def fdiv_def stripes_fields_image Let_def)

lemma stripes_pixels:
  "gimp_drawable_get_buffer stripes 0 0 = \<lparr> rgb_r = 0, rgb_g = 0, rgb_b = 0, rgb_a = 1 \<rparr>"
  "gimp_drawable_get_buffer stripes 1 0
     = \<lparr> rgb_r = 10 / 255, rgb_g = 10 / 255, rgb_b = 10 / 255, rgb_a = 1 \<rparr>"
  "gimp_drawable_get_buffer stripes 2 0
     = \<lparr> rgb_r = 50 / 255, rgb_g = 50 / 255, rgb_b = 50 / 255, rgb_a = 1 \<rparr>"
  by (simp_all add: stripes_def stripe_byte_def)

lemma gint_of_double_of_int: "gint_of_double (real_of_int k) = k"
  by (simp add: gint_of_double_def)

lemma gint_of_double_values:
  "gint_of_double (- 1) = - 1" "gint_of_double 0 = 0" "gint_of_double 1 = 1"
  "gint_of_double 2 = 2" "gint_of_double 3 = 3"
  using gint_of_double_of_int [of "- 1"] gint_of_double_of_int [of 0] gint_of_double_of_int [of 1]
    gint_of_double_of_int [of 2] gint_of_double_of_int [of 3]
  by simp_all

lemma getpixel_stripes_at:
  "getpixel (gl_stripes lv) lib0 (gimp_drawable_get_buffer stripes) (- 1) v
     = Some (gimp_drawable_get_buffer stripes 2 0)"
  "getpixel (gl_stripes lv) lib0 (gimp_drawable_get_buffer stripes) 0 v
     = Some (gimp_drawable_get_buffer stripes 0 0)"
  "getpixel (gl_stripes lv) lib0 (gimp_drawable_get_buffer stripes) 1 v
     = Some (gimp_drawable_get_buffer stripes 1 0)"
  "getpixel (gl_stripes lv) lib0 (gimp_drawable_get_buffer stripes) 2 v
     = Some (gimp_drawable_get_buffer stripes 2 0)"
  "getpixel (gl_stripes lv) lib0 (gimp_drawable_get_buffer stripes) 3 v
     = Some (gimp_drawable_get_buffer stripes 0 0)"
  by (simp_all add: getpixel_stripes gint_of_double_values smod_int_alt_def)

lemma filter_stripes_at:
  "filter_lic (gl_stripes (lv_stripes op)) (- 2) = Some 0"
  "filter_lic (gl_stripes (lv_stripes op)) (- 1) = Some (1 / 2)"
  "filter_lic (gl_stripes (lv_stripes op)) 0 = Some 1"
  "filter_lic (gl_stripes (lv_stripes op)) 1 = Some (1 / 2)"
  "filter_lic (gl_stripes (lv_stripes op)) 2 = Some 0"
  by (simp_all add: filter_stripes)

lemma gray_ops:
  "gimp_rgb_multiply \<lparr> rgb_r = p, rgb_g = p, rgb_b = p, rgb_a = q \<rparr> f
     = \<lparr> rgb_r = p * f, rgb_g = p * f, rgb_b = p * f, rgb_a = q \<rparr>"
  "gimp_rgb_add lib0 \<lparr> rgb_r = p, rgb_g = p, rgb_b = p, rgb_a = q \<rparr>
       \<lparr> rgb_r = p', rgb_g = p', rgb_b = p', rgb_a = q' \<rparr>
     = \<lparr> rgb_r = p + p', rgb_g = p + p', rgb_b = p + p', rgb_a = q \<rparr>"
  by (simp_all add: gimp_rgb_multiply_def lib0_def)

lemma stripes_loop_step:
  assumes "u \<le> 2"
    and "getpixel (gl_stripes (lv_stripes op)) lib0 (gimp_drawable_get_buffer stripes)
           (xx - u * c) (yy - u * s) = Some \<lparr> rgb_r = p, rgb_g = p, rgb_b = p, rgb_a = 1 \<rparr>"
    and "filter_lic (gl_stripes (lv_stripes op)) u = Some f"
  shows "lic_image_loop (gl_stripes (lv_stripes op)) lib0 (gimp_drawable_get_buffer stripes)
           xx yy c s 1 u \<lparr> rgb_r = p1, rgb_g = p1, rgb_b = p1, rgb_a = 1 \<rparr>
             \<lparr> rgb_r = t, rgb_g = t, rgb_b = t, rgb_a = 0 \<rparr>
         = lic_image_loop (gl_stripes (lv_stripes op)) lib0 (gimp_drawable_get_buffer stripes)
           xx yy c s 1 (u + 1) \<lparr> rgb_r = p * f, rgb_g = p * f, rgb_b = p * f, rgb_a = 1 \<rparr>
             \<lparr> rgb_r = t + (p1 + p * f) * (1 / 2), rgb_g = t + (p1 + p * f) * (1 / 2),
               rgb_b = t + (p1 + p * f) * (1 / 2), rgb_a = 0 \<rparr>"
proof -
  have le: "u \<le> gl_l (gl_stripes (lv_stripes op))"
    using assms(1) by (simp add: stripes_fields_image)
  show ?thesis
    unfolding lic_image_loop_step [OF le assms(2,3)]
    by (simp only: multiply_by_alpha_def lic_image_accumulate_def gl_stripes_fields if_False
        Let_def gray_ops) simp
qed

lemma lic_image_stripes_unrotated:
  "lic_image (gl_stripes (lv_stripes op)) lib0 (gimp_drawable_get_buffer stripes) 1 0 (- 1) 0
     = Some \<lparr> rgb_r = 7 / 102, rgb_g = 7 / 102, rgb_b = 7 / 102, rgb_a = 0 \<rparr>"
proof -
  let ?loop = "lic_image_loop (gl_stripes (lv_stripes op)) lib0 (gimp_drawable_get_buffer stripes) 1 0 (- 1) 0 1"
  let ?gray = "\<lambda>p q. \<lparr> rgb_r = p, rgb_g = p, rgb_b = p, rgb_a = q \<rparr>"
  have s0: "?loop (- 1) (?gray (0) 1) (?gray (0) 0) = ?loop (0) (?gray (0) 1) (?gray (0) 0)"
    using stripes_loop_step [where u = "- 1" and op = op and xx = 1 and yy = 0 and c = "- 1" and s = "0"
        and p = "0" and f = "1 / 2" and ?p1.0 = "0" and t = "0"]
    by (simp add: getpixel_stripes_at filter_stripes_at stripes_pixels)
  have s1: "?loop (0) (?gray (0) 1) (?gray (0) 0) = ?loop (1) (?gray (2 / 51) 1) (?gray (1 / 51) 0)"
    using stripes_loop_step [where u = "0" and op = op and xx = 1 and yy = 0 and c = "- 1" and s = "0"
        and p = "2 / 51" and f = "1" and ?p1.0 = "0" and t = "0"]
    by (simp add: getpixel_stripes_at filter_stripes_at stripes_pixels)
  have s2: "?loop (1) (?gray (2 / 51) 1) (?gray (1 / 51) 0) = ?loop (2) (?gray (5 / 51) 1) (?gray (3 / 34) 0)"
    using stripes_loop_step [where u = "1" and op = op and xx = 1 and yy = 0 and c = "- 1" and s = "0"
        and p = "10 / 51" and f = "1 / 2" and ?p1.0 = "2 / 51" and t = "1 / 51"]
    by (simp add: getpixel_stripes_at filter_stripes_at stripes_pixels)
  have s3: "?loop (2) (?gray (5 / 51) 1) (?gray (3 / 34) 0) = ?loop (3) (?gray (0) 1) (?gray (7 / 51) 0)"
    using stripes_loop_step [where u = "2" and op = op and xx = 1 and yy = 0 and c = "- 1" and s = "0"
        and p = "0" and f = "0" and ?p1.0 = "5 / 51" and t = "3 / 34"]
    by (simp add: getpixel_stripes_at filter_stripes_at stripes_pixels)
  have exit: "?loop 3 (?gray (0) 1) (?gray (7 / 51) 0) = Some (?gray (7 / 51) 0)"
    by (rule lic_image_loop_exit) (simp add: stripes_fields_image)
  have loop: "?loop (- 1) (?gray 0 1) (?gray 0 0) = Some (?gray (7 / 51) 0)"
    by (simp only: s0 s1 s2 s3 exit)
  have first: "getpixel (gl_stripes (lv_stripes op)) lib0 (gimp_drawable_get_buffer stripes)
                 (real_of_int 1 + gl_l (gl_stripes (lv_stripes op)) * (- 1))
                 (real_of_int 0 + gl_l (gl_stripes (lv_stripes op)) * 0) = Some (?gray (10 / 51) 1)"
    by (simp add: stripes_fields_image getpixel_stripes_at stripes_pixels)
  have step: "fdiv (2 * gl_l (gl_stripes (lv_stripes op))) (gl_isteps (gl_stripes (lv_stripes op)))
                = Some 1"
    by (simp add: fdiv_def stripes_fields_image)
  have f0: "filter_lic (gl_stripes (lv_stripes op)) (- gl_l (gl_stripes (lv_stripes op))) = Some 0"
    by (simp add: stripes_fields_image filter_stripes_at)
  have loop': "lic_image_loop (gl_stripes (lv_stripes op)) lib0 (gimp_drawable_get_buffer stripes)
                 (real_of_int 1) (real_of_int 0) (- 1) 0 1 (- gl_l (gl_stripes (lv_stripes op)) + 1)
                 (multiply_by_alpha (gl_stripes (lv_stripes op)) (?gray (10 / 51) 1) 0)
                 \<lparr> rgb_r = 0, rgb_g = 0, rgb_b = 0, rgb_a = 0 \<rparr>
               = Some (?gray (7 / 51) 0)"
    using loop by (simp add: stripes_fields_image multiply_by_alpha_def gl_stripes_fields(5) gray_ops)
  have inv: "fdiv 1 (gl_l (gl_stripes (lv_stripes op))) = Some (1 / 2)"
    by (simp add: fdiv_def stripes_fields_image)
  have fin: "gimp_rgb_clamp lib0 (multiply_by_alpha (gl_stripes (lv_stripes op)) (?gray (7 / 51) 0) (1 / 2))
               = ?gray (7 / 102) 0"
    by (simp add: multiply_by_alpha_def gl_stripes_fields(5) gray_ops)
       (simp add: lib0_def CLAMP_def)
  show ?thesis
    by (simp only: lic_image_def Let_def step bind.bind_lunit first f0 loop' inv fin)
qed

lemma lic_image_stripes_rotated:
  "lic_image (gl_stripes (lv_stripes op)) lib0 (gimp_drawable_get_buffer stripes) 1 0 0 1
     = Some \<lparr> rgb_r = 2 / 51, rgb_g = 2 / 51, rgb_b = 2 / 51, rgb_a = 0 \<rparr>"
proof -
  let ?loop = "lic_image_loop (gl_stripes (lv_stripes op)) lib0 (gimp_drawable_get_buffer stripes) 1 0 0 1 1"
  let ?gray = "\<lambda>p q. \<lparr> rgb_r = p, rgb_g = p, rgb_b = p, rgb_a = q \<rparr>"
  have s0: "?loop (- 1) (?gray (0) 1) (?gray (0) 0) = ?loop (0) (?gray (1 / 51) 1) (?gray (1 / 102) 0)"
    using stripes_loop_step [where u = "- 1" and op = op and xx = 1 and yy = 0 and c = "0" and s = "1"
        and p = "2 / 51" and f = "1 / 2" and ?p1.0 = "0" and t = "0"]
    by (simp add: getpixel_stripes_at filter_stripes_at stripes_pixels)
  have s1: "?loop (0) (?gray (1 / 51) 1) (?gray (1 / 102) 0) = ?loop (1) (?gray (2 / 51) 1) (?gray (2 / 51) 0)"
    using stripes_loop_step [where u = "0" and op = op and xx = 1 and yy = 0 and c = "0" and s = "1"
        and p = "2 / 51" and f = "1" and ?p1.0 = "1 / 51" and t = "1 / 102"]
    by (simp add: getpixel_stripes_at filter_stripes_at stripes_pixels)
  have s2: "?loop (1) (?gray (2 / 51) 1) (?gray (2 / 51) 0) = ?loop (2) (?gray (1 / 51) 1) (?gray (7 / 102) 0)"
    using stripes_loop_step [where u = "1" and op = op and xx = 1 and yy = 0 and c = "0" and s = "1"
        and p = "2 / 51" and f = "1 / 2" and ?p1.0 = "2 / 51" and t = "2 / 51"]
    by (simp add: getpixel_stripes_at filter_stripes_at stripes_pixels)
  have s3: "?loop (2) (?gray (1 / 51) 1) (?gray (7 / 102) 0) = ?loop (3) (?gray (0) 1) (?gray (4 / 51) 0)"
    using stripes_loop_step [where u = "2" and op = op and xx = 1 and yy = 0 and c = "0" and s = "1"
        and p = "2 / 51" and f = "0" and ?p1.0 = "1 / 51" and t = "7 / 102"]
    by (simp add: getpixel_stripes_at filter_stripes_at stripes_pixels)
  have exit: "?loop 3 (?gray (0) 1) (?gray (4 / 51) 0) = Some (?gray (4 / 51) 0)"
    by (rule lic_image_loop_exit) (simp add: stripes_fields_image)
  have loop: "?loop (- 1) (?gray 0 1) (?gray 0 0) = Some (?gray (4 / 51) 0)"
    by (simp only: s0 s1 s2 s3 exit)
  have first: "getpixel (gl_stripes (lv_stripes op)) lib0 (gimp_drawable_get_buffer stripes)
                 (real_of_int 1 + gl_l (gl_stripes (lv_stripes op)) * 0)
                 (real_of_int 0 + gl_l (gl_stripes (lv_stripes op)) * 1) = Some (?gray (2 / 51) 1)"
    by (simp add: stripes_fields_image getpixel_stripes_at stripes_pixels)
  have step: "fdiv (2 * gl_l (gl_stripes (lv_stripes op))) (gl_isteps (gl_stripes (lv_stripes op)))
                = Some 1"
    by (simp add: fdiv_def stripes_fields_image)
  have f0: "filter_lic (gl_stripes (lv_stripes op)) (- gl_l (gl_stripes (lv_stripes op))) = Some 0"
    by (simp add: stripes_fields_image filter_stripes_at)
  have loop': "lic_image_loop (gl_stripes (lv_stripes op)) lib0 (gimp_drawable_get_buffer stripes)
                 (real_of_int 1) (real_of_int 0) 0 1 1 (- gl_l (gl_stripes (lv_stripes op)) + 1)
                 (multiply_by_alpha (gl_stripes (lv_stripes op)) (?gray (2 / 51) 1) 0)
                 \<lparr> rgb_r = 0, rgb_g = 0, rgb_b = 0, rgb_a = 0 \<rparr>
               = Some (?gray (4 / 51) 0)"
    using loop by (simp add: stripes_fields_image multiply_by_alpha_def gl_stripes_fields(5) gray_ops)
  have inv: "fdiv 1 (gl_l (gl_stripes (lv_stripes op))) = Some (1 / 2)"
    by (simp add: fdiv_def stripes_fields_image)
  have fin: "gimp_rgb_clamp lib0 (multiply_by_alpha (gl_stripes (lv_stripes op)) (?gray (4 / 51) 0) (1 / 2))
               = ?gray (2 / 51) 0"
    by (simp add: multiply_by_alpha_def gl_stripes_fields(5) gray_ops)
       (simp add: lib0_def CLAMP_def)
  show ?thesis
    by (simp only: lic_image_def Let_def step bind.bind_lunit first f0 loop' inv fin)
qed

lemma field_stripes_full:
  "length field_stripes = nat (effect_width (gl_stripes lv) * effect_height (gl_stripes lv))"
  "\<forall>cell \<in> set field_stripes. cell \<noteq> None"
  by (simp_all add: field_stripes_def gl_stripes_fields)

lemma effect_scalarfield_stripes:
  assumes "effect_channel lv = 2"
  shows "effect_scalarfield (gl_stripes lv) lib0 rand0 stripes (clamp_filtlen lv) = Some field_stripes"
proof -
  have "effect_channel (clamp_filtlen lv) = 2"
    using assms by (simp add: clamp_filtlen_def)
  then show ?thesis
    by (simp add: effect_scalarfield_def rgb_to_hsl_stripes)
qed

lemma host_stripes_fields:
  "drawables host_stripes 1 = Some stripes"
  "gimp_drawable_mask_intersect stripes = Some (0, 0, 3, 1)"
  "gimp_drawable_get_by_id host_stripes 1 = Some stripes"
  by (simp_all add: host_stripes_def stripes_def gimp_drawable_get_by_id_def)

lemma plugin_stripes_fields:
  "licvals (plugin_stripes lv) = lv" "globs (plugin_stripes lv) = initial_globals"
  by (simp_all add: plugin_stripes_def plugin0_def)

lemma compute_image_stripes:
  assumes "effect_channel lv = 2" "effect_image_id lv = 1"
    and "compute_lic (gl_stripes lv) lib0 (clamp_filtlen lv)
           (if effect_convolve lv = 0 then G0 else grid (plugin_stripes lv)) stripes field_stripes
           (effect_operator lv \<noteq> 0) = Some dest"
  shows "compute_image lib0 G0 rand0 1 (plugin_stripes lv, host_stripes) =
           Some (\<lparr> licvals = clamp_filtlen lv, globs = gl_stripes lv,
                   grid = (if effect_convolve lv = 0 then G0 else grid (plugin_stripes lv)) \<rparr>,
                 host_stripes \<lparr> drawables := (drawables host_stripes)
                                 (1 \<mapsto> gimp_drawable_merge_shadow lib0 stripes dest) \<rparr>)"
proof -
  have id: "gimp_drawable_get_by_id host_stripes (effect_image_id (licvals (plugin_stripes lv)))
              = Some stripes"
    by (simp add: plugin_stripes_fields assms(2) host_stripes_fields)
  have gl: "assign_globals (globs (plugin_stripes lv)) (clamp_filtlen (licvals (plugin_stripes lv)))
              stripes stripes 3 1 = gl_stripes lv"
    by (simp add: plugin_stripes_fields gl_stripes_def)
  have sf: "effect_scalarfield
              (assign_globals (globs (plugin_stripes lv)) (clamp_filtlen (licvals (plugin_stripes lv)))
                 stripes stripes 3 1)
              lib0 rand0 stripes (clamp_filtlen (licvals (plugin_stripes lv))) = Some field_stripes"
    unfolding gl by (simp add: plugin_stripes_fields effect_scalarfield_stripes [OF assms(1)])
  have cl: "compute_lic
              (assign_globals (globs (plugin_stripes lv)) (clamp_filtlen (licvals (plugin_stripes lv)))
                 stripes stripes 3 1)
              lib0 (clamp_filtlen (licvals (plugin_stripes lv)))
              (if effect_convolve (licvals (plugin_stripes lv)) = 0 then G0 else grid (plugin_stripes lv))
              stripes field_stripes (effect_operator (licvals (plugin_stripes lv)) \<noteq> 0) = Some dest"
    unfolding gl using assms(3) by (simp add: plugin_stripes_fields)
  from compute_image_some [OF host_stripes_fields(1,2) id sf cl]
  show ?thesis
    unfolding gl by (simp add: plugin_stripes_fields)
qed

lemma run_pixel_stripes:
  assumes "effect_channel lv = 2" "effect_image_id lv = 1"
    and "compute_lic (gl_stripes lv) lib0 (clamp_filtlen lv)
           (if effect_convolve lv = 0 then G0 else grid (plugin_stripes lv)) stripes field_stripes
           (effect_operator lv \<noteq> 0) = Some dest"
  shows "run_pixel (compute_image lib0 G0 rand0 1 (plugin_stripes lv, host_stripes)) 1 x y
           = Some (dest x y)"
  unfolding compute_image_stripes [OF assms]
  by (simp add: run_pixel_def lib0_def)

lemma stripes_image_run:
  "\<exists>dest. compute_lic (gl_stripes (lv_stripes op)) lib0 (clamp_filtlen (lv_stripes op))
             (if effect_convolve (lv_stripes op) = 0 then G0 else grid (plugin_stripes (lv_stripes op)))
             stripes field_stripes (effect_operator (lv_stripes op) \<noteq> 0) = Some dest"
proof (rule compute_lic_some)
  fix x y
  have "effect_convolve (clamp_filtlen (lv_stripes op)) \<noteq> 0"
    by (simp add: clamp_filtlen_def stripes_fields_image)
  then show "compute_pixel (gl_stripes (lv_stripes op)) lib0 (clamp_filtlen (lv_stripes op))
          (if effect_convolve (lv_stripes op) = 0 then G0 else grid (plugin_stripes (lv_stripes op)))
          (gimp_drawable_get_buffer stripes) field_stripes (effect_operator (lv_stripes op) \<noteq> 0) x y
        \<noteq> None"
    by (intro compute_pixel_image_some field_stripes_full)
       (simp_all add: gl_stripes_fields(1-4) stripes_fields_image)
qed

lemma compute_pixel_stripes_image:
  "compute_pixel (gl_stripes (lv_stripes op)) lib0 (clamp_filtlen (lv_stripes op)) G
     (gimp_drawable_get_buffer stripes) field_stripes (op \<noteq> 0) 1 0
   = Some (if op = 0 then \<lparr> rgb_r = 7 / 102, rgb_g = 7 / 102, rgb_b = 7 / 102, rgb_a = 0 \<rparr>
           else \<lparr> rgb_r = 2 / 51, rgb_g = 2 / 51, rgb_b = 2 / 51, rgb_a = 0 \<rparr>)"
proof -
  have img: "effect_convolve (clamp_filtlen (lv_stripes op)) \<noteq> 0"
    by (simp add: clamp_filtlen_def stripes_fields_image)
  show ?thesis
  proof (cases "op = 0")
    case True
    then show ?thesis
      using img
      by (simp add: compute_pixel_def flow_stripes_unrotated lic_image_stripes_unrotated)
  next
    case False
    then show ?thesis
      using img
      by (simp add: compute_pixel_def flow_stripes_rotated lic_image_stripes_rotated)
  qed
qed

lemma run_pixel_stripes_image:
  "run_pixel (compute_image lib0 G0 rand0 1 (plugin_stripes (lv_stripes op), host_stripes)) 1 1 0
     = Some (if op = 0 then \<lparr> rgb_r = 7 / 102, rgb_g = 7 / 102, rgb_b = 7 / 102, rgb_a = 0 \<rparr>
             else \<lparr> rgb_r = 2 / 51, rgb_g = 2 / 51, rgb_b = 2 / 51, rgb_a = 0 \<rparr>)"
proof -
  obtain dest where
    dest: "compute_lic (gl_stripes (lv_stripes op)) lib0 (clamp_filtlen (lv_stripes op))
             (if effect_convolve (lv_stripes op) = 0 then G0 else grid (plugin_stripes (lv_stripes op)))
             stripes field_stripes (effect_operator (lv_stripes op) \<noteq> 0) = Some dest"
    using stripes_image_run by blast
  have "compute_pixel (gl_stripes (lv_stripes op)) lib0 (clamp_filtlen (lv_stripes op))
          (if effect_convolve (lv_stripes op) = 0 then G0 else grid (plugin_stripes (lv_stripes op)))
          (gimp_drawable_get_buffer stripes) field_stripes (effect_operator (lv_stripes op) \<noteq> 0) 1 0
        = Some (dest 1 0)"
    by (rule compute_lic_pixel [OF dest]) (simp_all add: gl_stripes_fields)
  then have "dest 1 0 = (if op = 0 then \<lparr> rgb_r = 7 / 102, rgb_g = 7 / 102, rgb_b = 7 / 102, rgb_a = 0 \<rparr>
             else \<lparr> rgb_r = 2 / 51, rgb_g = 2 / 51, rgb_b = 2 / 51, rgb_a = 0 \<rparr>)"
    by (simp only: stripes_fields_image(4) compute_pixel_stripes_image option.inject)
  moreover have "run_pixel (compute_image lib0 G0 rand0 1 (plugin_stripes (lv_stripes op), host_stripes)) 1 1 0
     = Some (dest 1 0)"
    by (rule run_pixel_stripes [OF _ _ dest]) (simp_all add: stripes_fields_image)
  ultimately show ?thesis by simp
qed

lemma stripes_fields_noise:
  "gl_l (gl_stripes lv_stripes_noise) = 5" "gl_isteps (gl_stripes lv_stripes_noise) = 25"
  "gl_dx (gl_stripes lv_stripes_noise) = 2" "gl_dy (gl_stripes lv_stripes_noise) = 2"
  "gl_minv (gl_stripes lv_stripes_noise) = - 5 / 2" "gl_maxv (gl_stripes lv_stripes_noise) = 5 / 2"
  "effect_convolve lv_stripes_noise = 0"
  by (simp_all add: gl_stripes_fields lv_stripes_noise_def clamp_filtlen_def set_default_settings_def)

lemma stripes_fields_flat:
  "gl_l (gl_stripes lv_stripes_flat) = 5" "gl_isteps (gl_stripes lv_stripes_flat) = 1"
  "gl_dx (gl_stripes lv_stripes_flat) = 2" "gl_dy (gl_stripes lv_stripes_flat) = 2"
  "gl_minv (gl_stripes lv_stripes_flat) = 0" "gl_maxv (gl_stripes lv_stripes_flat) = 0"
  "effect_convolve lv_stripes_flat = 0" "effect_operator lv_stripes_flat = 1"
  "effect_channel lv_stripes_flat = 2" "effect_image_id lv_stripes_flat = 1"
  "lv_minv lv_stripes_flat = 0" "lv_maxv lv_stripes_flat = 0"
  by (simp_all add: gl_stripes_fields lv_stripes_flat_def lv_stripes_noise_def clamp_filtlen_def
      set_default_settings_def)

lemma stripes_noise_run:
  "\<exists>dest. compute_lic (gl_stripes lv_stripes_noise) lib0 lv_stripes_noise G0 stripes field_stripes True
            = Some dest"
proof (rule compute_lic_some)
  fix x y
  show "compute_pixel (gl_stripes lv_stripes_noise) lib0 lv_stripes_noise G0
          (gimp_drawable_get_buffer stripes) field_stripes True x y \<noteq> None"
    by (intro compute_pixel_noise_some field_stripes_full)
       (simp_all add: gl_stripes_fields(1-4) stripes_fields_noise)
qed

lemma compute_image_stripes_none:
  assumes "effect_channel lv = 2" "effect_image_id lv = 1"
    and "compute_lic (gl_stripes lv) lib0 (clamp_filtlen lv)
           (if effect_convolve lv = 0 then G0 else grid (plugin_stripes lv)) stripes field_stripes
           (effect_operator lv \<noteq> 0) = None"
  shows "compute_image lib0 G0 rand0 1 (plugin_stripes lv, host_stripes) = None"
proof -
  have id: "gimp_drawable_get_by_id host_stripes (effect_image_id (licvals (plugin_stripes lv)))
              = Some stripes"
    by (simp add: plugin_stripes_fields assms(2) host_stripes_fields)
  have gl: "assign_globals (globs (plugin_stripes lv)) (clamp_filtlen (licvals (plugin_stripes lv)))
              stripes stripes 3 1 = gl_stripes lv"
    by (simp add: plugin_stripes_fields gl_stripes_def)
  have sf: "effect_scalarfield
              (assign_globals (globs (plugin_stripes lv)) (clamp_filtlen (licvals (plugin_stripes lv)))
                 stripes stripes 3 1)
              lib0 rand0 stripes (clamp_filtlen (licvals (plugin_stripes lv))) = Some field_stripes"
    unfolding gl by (simp add: plugin_stripes_fields effect_scalarfield_stripes [OF assms(1)])
  have cl: "compute_lic
              (assign_globals (globs (plugin_stripes lv)) (clamp_filtlen (licvals (plugin_stripes lv)))
                 stripes stripes 3 1)
              lib0 (clamp_filtlen (licvals (plugin_stripes lv)))
              (if effect_convolve (licvals (plugin_stripes lv)) = 0 then G0 else grid (plugin_stripes lv))
              stripes field_stripes (effect_operator (licvals (plugin_stripes lv)) \<noteq> 0) = None"
    unfolding gl using assms(3) by (simp add: plugin_stripes_fields)
  from compute_image_none [OF host_stripes_fields(1,2) id sf cl]
  show ?thesis .
qed

lemma lic_noise_integral_stripes_flat:
  "lic_noise_integral (gl_stripes lv_stripes_flat) G0 1 0 0 1 = Some 0"
proof -
  let ?gl = "gl_stripes lv_stripes_flat"
  have l0: "gl_l ?gl \<noteq> 0" by (simp add: stripes_fields_flat)
  have fa: "filter_lic ?gl (- gl_l ?gl) = Some 0"
    by (simp add: filter_lic_some [OF l0] stripes_fields_flat)
  have fb: "filter_lic ?gl (gl_l ?gl) = Some 0"
    by (simp add: filter_lic_some [OF l0] stripes_fields_flat)
  have ns: "\<exists>n. noise ?gl G0 x y = Some n" for x y
    by (rule noise_some) (simp_all add: stripes_fields_flat)
  obtain na where
    na: "noise ?gl G0 (real_of_int 1 + gl_l ?gl * 0) (real_of_int 0 + gl_l ?gl * 1) = Some na"
    using ns by blast
  obtain nb where
    nb: "noise ?gl G0 (real_of_int 1 - gl_l ?gl * 0) (real_of_int 0 - gl_l ?gl * 1) = Some nb"
    using ns by blast
  have "lic_noise_integral ?gl G0 1 0 0 1 = Some ((0 * na + 0 * nb) * (1 / 2) * (2 * gl_l ?gl))"
    by (rule lic_noise_integral_single_step [OF _ _ fa na fb nb]) (simp_all add: stripes_fields_flat)
  then show ?thesis by simp
qed

lemma lic_noise_stripes_flat: "lic_noise (gl_stripes lv_stripes_flat) G0 1 0 0 1 = None"
  by (simp add: lic_noise_def lic_noise_integral_stripes_flat fdiv_def stripes_fields_flat)

section \<open>The claims\<close>

text \<open>
  Claim C9. On a constant scalar field (every cell holds the same byte, the
  map has width times height cells, both positive) \<open>gradx\<close> and \<open>grady\<close> return
  0 at every coordinate: the sums of the two kernels cancel under the
  wrap-around of \<open>peekmap\<close>.
\<close>

theorem gradient_of_constant_field:
  assumes "0 < effect_width gl" "0 < effect_height gl"
    and "length img = nat (effect_width gl * effect_height gl)"
    and "\<forall>cell \<in> set img. cell = Some c"
  shows "gradx gl img x y = Some 0 \<and> grady gl img x y = Some 0"
  by (simp add: gradx_def grady_def peekmap_const [OF assms])

theorem gradient_of_constant_field_witness:
  "gradx gl33 (replicate 9 (Some 7)) (- 4) 5 = Some 0
   \<and> grady gl33 (replicate 9 (Some 7)) (- 4) 5 = Some 0"
  using gradient_of_constant_field [of gl33 "replicate 9 (Some 7)" 7 "- 4" 5]
  by (simp add: gl33_def)

text \<open>
  Claim C6. Sampling is periodic. For an effect image of positive width and
  height and all integers \<open>x\<close>, \<open>y\<close>, negative ones included, \<open>peekmap\<close> at
  \<open>(x + effect_width, y)\<close> and at \<open>(x, y + effect_height)\<close> equals \<open>peekmap\<close> at
  \<open>(x, y)\<close>; and for all reals \<open>x\<close>, \<open>y\<close> and non-zero cell sizes the noise value
  at \<open>(x + numx * dx, y)\<close> is the noise value at \<open>(x, y)\<close>.
\<close>

theorem sampling_periodic:
  assumes "0 < effect_width gl" "0 < effect_height gl" "gl_dx gl \<noteq> 0" "gl_dy gl \<noteq> 0"
  shows "peekmap gl img (xi + effect_width gl) yi = peekmap gl img xi yi
         \<and> peekmap gl img xi (yi + effect_height gl) = peekmap gl img xi yi
         \<and> (\<exists>n. noise gl G x y = Some n
                \<and> noise gl G (x + real_of_int numx * gl_dx gl) y = Some n)"
proof -
  have "peekmap gl img (xi + effect_width gl) yi = peekmap gl img xi yi"
    by (simp add: peekmap_wrapped [OF assms(1,2)])
  moreover have "peekmap gl img xi (yi + effect_height gl) = peekmap gl img xi yi"
    by (simp add: peekmap_wrapped [OF assms(1,2)])
  moreover have "\<exists>n. noise gl G x y = Some n
                   \<and> noise gl G (x + real_of_int numx * gl_dx gl) y = Some n"
    using noise_some [OF assms(3,4), of G x y] noise_periodic [OF assms(3), of G x y]
    by auto
  ultimately show ?thesis by blast
qed

theorem sampling_periodic_witness:
  "peekmap gl33 [Some 1, Some 2, None, Some 4, None, None, None, None, Some 9] (- 5 + 3) (- 1)
     = peekmap gl33 [Some 1, Some 2, None, Some 4, None, None, None, None, Some 9] (- 5) (- 1)
   \<and> peekmap gl33 [Some 1, Some 2, None, Some 4, None, None, None, None, Some 9] (- 5) (- 1 + 3)
     = peekmap gl33 [Some 1, Some 2, None, Some 4, None, None, None, None, Some 9] (- 5) (- 1)
   \<and> (\<exists>n. noise gl33 G0 (7 / 2) (- 3) = Some n
          \<and> noise gl33 G0 (7 / 2 + real_of_int numx * 2) (- 3) = Some n)"
  using sampling_periodic [of gl33
      "[Some 1, Some 2, None, Some 4, None, None, None, None, Some 9]" "- 5" "- 1" G0 "7 / 2" "- 3"]
  by (simp add: gl33_def initial_globals_def)

text \<open>
  Claim C8. \<open>normalize_flow\<close>, the normalisation in \<^verbatim>\<open>compute_lic\<close>: a vector
  \<open>(gx, gy)\<close> whose length \<open>sqrt (gx * gx + gy * gy)\<close> is at least \<open>0.000001\<close> is
  scaled by the inverse of its length, and the result has length 1; a shorter
  vector is returned unchanged; \<open>(0, 0)\<close> gives \<open>(0, 0)\<close>.
\<close>

theorem normalize_flow_result:
  "normalize_flow (gx, gy) =
     Some (if sqrt (gx * gx + gy * gy) \<ge> 1 / 1000000
           then (gx * (1 / sqrt (gx * gx + gy * gy)), gy * (1 / sqrt (gx * gx + gy * gy)))
           else (gx, gy))
   \<and> (sqrt (gx * gx + gy * gy) \<ge> 1 / 1000000 \<longrightarrow>
        (\<exists>vx vy. normalize_flow (gx, gy) = Some (vx, vy) \<and> sqrt (vx * vx + vy * vy) = 1))
   \<and> normalize_flow (0, 0) = Some (0, 0)"
proof (intro conjI impI)
  let ?m = "sqrt (gx * gx + gy * gy)"
  show first: "normalize_flow (gx, gy) =
     Some (if ?m \<ge> 1 / 1000000 then (gx * (1 / ?m), gy * (1 / ?m)) else (gx, gy))"
  proof (cases "?m \<ge> 1 / 1000000")
    case True
    then have "?m \<noteq> 0" by linarith
    then show ?thesis using True by (simp add: normalize_flow_def fdiv_def Let_def)
  next
    case False
    then show ?thesis by (simp add: normalize_flow_def Let_def)
  qed
  show "normalize_flow (0, 0) = Some (0, 0)"
    by (simp add: normalize_flow_def)
  assume big: "1 / 1000000 \<le> ?m"
  then have nz: "?m \<noteq> 0" by linarith
  have "0 \<le> gx * gx + gy * gy" by simp
  then have "?m * ?m = gx * gx + gy * gy" by simp
  from unit_length_after_scaling [OF this nz]
  have "sqrt (gx * (1 / ?m) * (gx * (1 / ?m)) + gy * (1 / ?m) * (gy * (1 / ?m))) = 1"
    by simp
  moreover have "normalize_flow (gx, gy) = Some (gx * (1 / ?m), gy * (1 / ?m))"
    using first big by simp
  ultimately show "\<exists>vx vy. normalize_flow (gx, gy) = Some (vx, vy) \<and> sqrt (vx * vx + vy * vy) = 1"
    by blast
qed

theorem normalize_flow_result_witness:
  "1 / 1000000 \<le> sqrt (3 * 3 + 4 * 4)
   \<and> normalize_flow (3, 4) = Some (3 * (1 / 5), 4 * (1 / 5))
   \<and> (\<exists>vx vy. normalize_flow (3, 4) = Some (vx, vy) \<and> sqrt (vx * vx + vy * vy) = 1)"
proof -
  have big: "1 / 1000000 \<le> sqrt (3 * 3 + 4 * 4)"
    unfolding sqrt_25 by simp
  note r = normalize_flow_result [of 3 4]
  have "normalize_flow (3, 4) = Some (3 * (1 / 5), 4 * (1 / 5))"
    using r big by (simp only: sqrt_25 if_True)
  moreover have "\<exists>vx vy. normalize_flow (3, 4) = Some (vx, vy) \<and> sqrt (vx * vx + vy * vy) = 1"
    using r big by blast
  ultimately show ?thesis using big by blast
qed

text \<open>
  Claim C10. \<open>lic_run\<close> called with a number of drawables other than 1 returns
  \<open>GIMP_PDB_CALLING_ERROR\<close>, and called with one drawable that is not RGB
  returns \<open>GIMP_PDB_EXECUTION_ERROR\<close>. In both cases \<open>compute_image\<close> is not
  run and the host, with all its drawables, is returned as it was; in the
  second case \<^verbatim>\<open>licvals\<close> holds the retrieved settings.
\<close>

theorem lic_run_rejects:
  "(n_drawables \<noteq> 1 \<longrightarrow>
      lic_run lib vectors rand dialog run_mode n_drawables drws (pl, h)
        = Some (GIMP_PDB_CALLING_ERROR, pl, h))
   \<and> (drawables h d = Some drw \<and> \<not> gimp_drawable_is_rgb drw \<longrightarrow>
      lic_run lib vectors rand dialog run_mode 1 [d] (pl, h)
        = Some (GIMP_PDB_EXECUTION_ERROR, pl \<lparr> licvals := retrieve_settings h \<rparr>, h))"
  by (simp add: lic_run_def)

theorem lic_run_rejects_witness:
  "lic_run lib0 G0 rand0 dialog0 GIMP_RUN_WITH_LAST_VALS 2 [1, 1] (plugin0, host_indexed)
     = Some (GIMP_PDB_CALLING_ERROR, plugin0, host_indexed)
   \<and> lic_run lib0 G0 rand0 dialog0 GIMP_RUN_WITH_LAST_VALS 1 [1] (plugin0, host_indexed)
     = Some (GIMP_PDB_EXECUTION_ERROR,
             plugin0 \<lparr> licvals := retrieve_settings host_indexed \<rparr>, host_indexed)"
proof -
  have "lic_run lib0 G0 rand0 dialog0 GIMP_RUN_WITH_LAST_VALS 2 [1, 1] (plugin0, host_indexed)
          = Some (GIMP_PDB_CALLING_ERROR, plugin0, host_indexed)"
    using lic_run_rejects [of 2 lib0 G0 rand0 dialog0 GIMP_RUN_WITH_LAST_VALS "[1, 1]"
        plugin0 host_indexed]
    by simp
  moreover have
    "lic_run lib0 G0 rand0 dialog0 GIMP_RUN_WITH_LAST_VALS 1 [1] (plugin0, host_indexed)
       = Some (GIMP_PDB_EXECUTION_ERROR,
               plugin0 \<lparr> licvals := retrieve_settings host_indexed \<rparr>, host_indexed)"
    using lic_run_rejects [of 2 lib0 G0 rand0 dialog0 GIMP_RUN_WITH_LAST_VALS "[1, 1]"
        plugin0 host_indexed 1 "gray_drawable 2 2 False"]
    by (simp add: host_indexed_def gray_drawable_def)
  ultimately show ?thesis by blast
qed

text \<open>
  Claim C7. With \<open>isteps = 1\<close> (so that \<open>step = 2 * l\<close>), a positive \<open>l\<close> and
  non-zero cell sizes, the integral of \<open>lic_noise\<close> is the one trapezoid between
  \<open>u = -l\<close> and \<open>u = l\<close>: \<open>(f (-l) + f l) * 0.5 * (2 * l)\<close>, where \<open>f u\<close> is
  \<open>filter u\<close> times the noise at \<open>(x - u * vx, y - u * vy)\<close>.
\<close>

theorem single_step_trapezoid:
  assumes "gl_isteps gl = 1" "0 < gl_l gl" "gl_dx gl \<noteq> 0" "gl_dy gl \<noteq> 0"
  shows "\<exists>fa na fb nb.
           filter_lic gl (- gl_l gl) = Some fa
           \<and> noise gl G (real_of_int x - (- gl_l gl) * vx) (real_of_int y - (- gl_l gl) * vy) = Some na
           \<and> filter_lic gl (gl_l gl) = Some fb
           \<and> noise gl G (real_of_int x - gl_l gl * vx) (real_of_int y - gl_l gl * vy) = Some nb
           \<and> lic_noise_integral gl G x y vx vy
               = Some ((fa * na + fb * nb) * (1 / 2) * (2 * gl_l gl))"
proof -
  let ?l = "gl_l gl"
  let ?xx = "real_of_int x" and ?yy = "real_of_int y"
  have l0: "?l \<noteq> 0" using assms(2) by simp
  obtain fa where fa: "filter_lic gl (- ?l) = Some fa"
    using filter_lic_some [OF l0] by blast
  obtain fb where fb: "filter_lic gl ?l = Some fb"
    using filter_lic_some [OF l0] by blast
  obtain na where na: "noise gl G (?xx + ?l * vx) (?yy + ?l * vy) = Some na"
    using noise_some [OF assms(3,4)] by blast
  obtain nb where nb: "noise gl G (?xx - ?l * vx) (?yy - ?l * vy) = Some nb"
    using noise_some [OF assms(3,4)] by blast
  have "lic_noise_integral gl G x y vx vy = Some ((fa * na + fb * nb) * (1 / 2) * (2 * ?l))"
    by (rule lic_noise_integral_single_step [OF assms(1,2) fa na fb nb])
  moreover have "noise gl G (?xx - (- ?l) * vx) (?yy - (- ?l) * vy) = Some na"
    using na by simp
  ultimately show ?thesis using fa fb nb by blast
qed

theorem single_step_trapezoid_witness:
  "\<exists>fa na fb nb.
     filter_lic gl_one_step (- gl_l gl_one_step) = Some fa
     \<and> noise gl_one_step G0 (real_of_int 3 - (- gl_l gl_one_step) * (3 / 5))
          (real_of_int 4 - (- gl_l gl_one_step) * (4 / 5)) = Some na
     \<and> filter_lic gl_one_step (gl_l gl_one_step) = Some fb
     \<and> noise gl_one_step G0 (real_of_int 3 - gl_l gl_one_step * (3 / 5))
          (real_of_int 4 - gl_l gl_one_step * (4 / 5)) = Some nb
     \<and> lic_noise_integral gl_one_step G0 3 4 (3 / 5) (4 / 5)
         = Some ((fa * na + fb * nb) * (1 / 2) * (2 * gl_l gl_one_step))"
proof -
  have "gl_isteps gl_one_step = 1" "0 < gl_l gl_one_step" "gl_dx gl_one_step \<noteq> 0"
    "gl_dy gl_one_step \<noteq> 0"
    by (simp_all add: gl_one_step_def gl33_def initial_globals_def)
  from single_step_trapezoid [OF this, of G0 3 "3 / 5" 4 "4 / 5"] show ?thesis .
qed

text \<open>
  Claim C4, as the code has it. Two divisions are guarded. The normalisation
  of the flow vector divides by the length only when the length is at least
  \<open>0.000001\<close>: it always has a result, and a shorter vector is returned as it
  is. \<^verbatim>\<open>compute_image\<close> raises the filter length to at least \<open>0.1\<close> before it
  assigns it to \<open>l\<close>, so that \<^verbatim>\<open>filter\<close>, which divides by \<open>l\<close>, has a result;
  this holds of the two statements taken by themselves and of the variables
  that a run of \<^verbatim>\<open>compute_image\<close> on a non-empty rectangle leaves.
\<close>

theorem numeric_guards:
  "(\<exists>v. normalize_flow (gx, gy) = Some v)
   \<and> (sqrt (gx * gx + gy * gy) < 1 / 1000000 \<longrightarrow> normalize_flow (gx, gy) = Some (gx, gy))
   \<and> 1 / 10 \<le> gl_l (assign_globals gl (clamp_filtlen lv) drw effect_image bw bh)
   \<and> (\<exists>f. filter_lic (assign_globals gl (clamp_filtlen lv) drw effect_image bw bh) u = Some f)
   \<and> (compute_image lib vectors rand d (pl, h) = Some (pl', h')
        \<and> drawables h d = Some source \<and> gimp_drawable_mask_intersect source = Some rect \<longrightarrow>
       1 / 10 \<le> gl_l (globs pl') \<and> (\<exists>f. filter_lic (globs pl') u = Some f))"
proof (intro conjI impI)
  let ?m = "sqrt (gx * gx + gy * gy)"
  have nf: "normalize_flow (gx, gy) =
              Some (if ?m \<ge> 1 / 1000000 then (gx * (1 / ?m), gy * (1 / ?m)) else (gx, gy))"
  proof (cases "?m \<ge> 1 / 1000000")
    case True
    then have "?m \<noteq> 0" by linarith
    then show ?thesis using True by (simp add: normalize_flow_def fdiv_def Let_def)
  next
    case False
    then show ?thesis by (simp add: normalize_flow_def Let_def)
  qed
  then show "\<exists>v. normalize_flow (gx, gy) = Some v" by blast
  show "normalize_flow (gx, gy) = Some (gx, gy)" if "?m < 1 / 1000000"
    using that nf by simp
  show l: "1 / 10 \<le> gl_l (assign_globals g' (clamp_filtlen lv') drw' e' bw' bh')"
    for g' lv' drw' e' bw' bh'
    by (simp add: assign_globals_def clamp_filtlen_def)
  have f: "\<exists>f. filter_lic (assign_globals g' (clamp_filtlen lv') drw' e' bw' bh') u = Some f"
    for g' lv' drw' e' bw' bh'
  proof -
    have "gl_l (assign_globals g' (clamp_filtlen lv') drw' e' bw' bh') \<noteq> 0"
      using l [of g' lv' drw' e' bw' bh'] by linarith
    from filter_lic_some [OF this] show ?thesis by blast
  qed
  show "\<exists>f. filter_lic (assign_globals gl (clamp_filtlen lv) drw effect_image bw bh) u = Some f"
    by (rule f)
  assume run: "compute_image lib vectors rand d (pl, h) = Some (pl', h')
                 \<and> drawables h d = Some source \<and> gimp_drawable_mask_intersect source = Some rect"
  obtain rx ry rw rh where rect: "rect = (rx, ry, rw, rh)"
    by (cases rect)
  from run rect compute_image_unfold [of lib vectors rand d pl h pl' h' source rx ry rw rh]
  obtain e where
    gl': "globs pl' = assign_globals (globs pl) (clamp_filtlen (licvals pl)) source e rw rh"
    by auto
  show "1 / 10 \<le> gl_l (globs pl')"
    unfolding gl' by (rule l)
  show "\<exists>f. filter_lic (globs pl') u = Some f"
    unfolding gl' by (rule f)
qed

theorem numeric_guards_witness:
  "sqrt (0 * 0 + 0 * 0) < (1 / 1000000 :: real)
   \<and> normalize_flow (0, 0) = Some (0, 0)
   \<and> 1 / 10 \<le> gl_l (assign_globals initial_globals
                        (clamp_filtlen (set_default_settings \<lparr> filtlen := 0 \<rparr>))
                        (gray_drawable 3 3 True) (gray_drawable 3 3 True) 3 3)
   \<and> (\<exists>f. filter_lic (assign_globals initial_globals
                        (clamp_filtlen (set_default_settings \<lparr> filtlen := 0 \<rparr>))
                        (gray_drawable 3 3 True) (gray_drawable 3 3 True) 3 3) 5 = Some f)
   \<and> (\<exists>pl' h'. compute_image lib0 G0 rand0 1 (plugin_stripes (lv_stripes 1), host_stripes)
                   = Some (pl', h')
          \<and> 1 / 10 \<le> gl_l (globs pl') \<and> (\<exists>f. filter_lic (globs pl') 5 = Some f))"
proof -
  have small: "sqrt (0 * 0 + 0 * 0) < (1 / 1000000 :: real)" by simp
  obtain dest where
    "compute_lic (gl_stripes (lv_stripes 1)) lib0 (clamp_filtlen (lv_stripes 1))
       (if effect_convolve (lv_stripes 1) = 0 then G0 else grid (plugin_stripes (lv_stripes 1)))
       stripes field_stripes (effect_operator (lv_stripes 1) \<noteq> 0) = Some dest"
    using stripes_image_run by blast
  from compute_image_stripes [OF _ _ this] obtain pl' h' where
    run: "compute_image lib0 G0 rand0 1 (plugin_stripes (lv_stripes 1), host_stripes) = Some (pl', h')"
    by (simp add: stripes_fields_image)
  from numeric_guards [of 0 0 initial_globals "set_default_settings \<lparr> filtlen := 0 \<rparr>"
      "gray_drawable 3 3 True" "gray_drawable 3 3 True" 3 3 5 lib0 G0 rand0 1
      "plugin_stripes (lv_stripes 1)" host_stripes pl' h' stripes "(0, 0, 3, 1)"]
    small run host_stripes_fields(1,2)
  show ?thesis by blast
qed

text \<open>
  The claim as the spec words it fails at the normalisation of \<open>lic_noise\<close>:
  with the minimum and the maximum value both 0, which the dialog allows,
  the integral is divided by \<open>maxv - minv = 0\<close> without a check.
\<close>

theorem unguarded_division_in_lic_noise:
  "\<bar>gl_maxv gl_flat - gl_minv gl_flat\<bar> < 1 / 1000000
   \<and> lic_noise_integral gl_flat G0 1 1 (- 1) 0 = Some 0
   \<and> fdiv (0 - gl_minv gl_flat) (gl_maxv gl_flat - gl_minv gl_flat) = None
   \<and> lic_noise gl_flat G0 1 1 (- 1) 0 = None"
  by (simp add: gl_flat_fields lic_noise_integral_flat lic_noise_def fdiv_def)

text \<open>
  Claim C3 does not hold of the code. The map is allocated with the width
  times the height of the effect image, but the loops of \<open>rgb_to_hsl\<close> run over
  the processed rectangle of the source drawable and write the cells one
  after the other. For an effect image of 3 by 2 pixels and a rectangle of 2
  by 2, the cell 2 holds the pixel \<open>(0, 1)\<close>, where \<open>peekmap\<close> reads the pixel
  \<open>(2, 0)\<close>, and the cells 4 and 5 are never written.
\<close>

theorem rgb_to_hsl_on_selection:
  "rgb_to_hsl gl_selection lib0 rand0 (gray_drawable 3 2 True) LIC_BRIGHTNESS
     = Some [Some 0, Some 10, Some 100, Some 110, None, None]
   \<and> fst (buffer_u8 (gray_drawable 3 2 True) 2 0) = 20
   \<and> peekmap gl_selection [Some 0, Some 10, Some 100, Some 110, None, None] 2 0 = Some 100
   \<and> peekmap gl_selection [Some 0, Some 10, Some 100, Some 110, None, None] 1 1 = None"
proof -
  have w: "border_w gl_selection = 2" "border_h gl_selection = 2"
    by (simp_all add: gl_selection_def)
  have size: "gimp_drawable_get_width (gray_drawable 3 2 True)
                * gimp_drawable_get_height (gray_drawable 3 2 True) = 6"
    by (simp add: gray_drawable_def)
  have rep: "replicate (nat 6) None = [None, None, None, None, None, (None :: guchar option)]"
    by (simp add: numeral_eq_Suc)
  have "rgb_to_hsl gl_selection lib0 rand0 (gray_drawable 3 2 True) LIC_BRIGHTNESS
          = Some [Some 0, Some 10, Some 100, Some 110, None, None]"
    unfolding rgb_to_hsl_def Let_def w size rep upto_0_1
    by (simp add: rgb_to_hsl_pixel_gray)
  moreover have "fst (buffer_u8 (gray_drawable 3 2 True) 2 0) = 20"
    by (simp add: gray_drawable_def)
  moreover have pos: "0 < effect_width gl_selection" "0 < effect_height gl_selection"
    by (simp_all add: gl_selection_def)
  have "peekmap gl_selection [Some 0, Some 10, Some 100, Some 110, None, None] 2 0 = Some 100"
    unfolding peekmap_wrapped [OF pos] by (simp add: gl_selection_def read_map_def)
  moreover have "peekmap gl_selection [Some 0, Some 10, Some 100, Some 110, None, None] 1 1 = None"
    unfolding peekmap_wrapped [OF pos] by (simp add: gl_selection_def read_map_def)
  ultimately show ?thesis by blast
qed

text \<open>
  Claim C1, as the code has it. In every run of \<^verbatim>\<open>compute_image\<close> that has a
  result, and for every pixel \<open>(x, y)\<close> of the processed rectangle, the vector
  that is normalised and handed to the convolver is the raw gradient
  \<open>(gx, gy)\<close> of the scalar map at the pixel when \<^verbatim>\<open>licvals.effect_operator\<close> is
  0, the value of the dialog's choice "Derivative", and its rotation
  \<open>(gy, -gx)\<close> when the operator is not 0, as for the value 1 of the choice
  "Gradient"; the colour that the convolver returns for this vector is the
  pixel \<open>(x, y)\<close> of the buffer that is merged into the drawable.
\<close>

theorem operator_selects_rotation:
  assumes "compute_image lib vectors rand d (pl, h) = Some (pl', h')"
    and "drawables h d = Some drw"
    and "gimp_drawable_mask_intersect drw = Some (bx, by, bw, bh)"
    and "0 \<le> x" "x < bw" "0 \<le> y" "y < bh"
  shows "(\<exists>effect_image scalarfield dest gx gy v.
           gimp_drawable_get_by_id h (effect_image_id (licvals pl)) = Some effect_image
           \<and> effect_scalarfield (globs pl') lib rand effect_image (licvals pl') = Some scalarfield
           \<and> drawables h' d = Some (gimp_drawable_merge_shadow lib drw dest)
           \<and> gradx (globs pl') scalarfield x y = Some gx
           \<and> grady (globs pl') scalarfield x y = Some gy
           \<and> normalize_flow (if effect_operator (licvals pl) = 0
                              then (real_of_int gx, real_of_int gy)
                              else (real_of_int gy, - real_of_int gx)) = Some v
           \<and> (if effect_convolve (licvals pl) = 0
               then map_option (multiply_by_alpha (globs pl') (peek (gimp_drawable_get_buffer drw) x y))
                      (lic_noise (globs pl') (grid pl') x y (fst v) (snd v))
               else lic_image (globs pl') lib (gimp_drawable_get_buffer drw) x y (fst v) (snd v))
              = Some (dest x y))
         \<and> map_of effect_operator_group ''_Derivative'' = Some 0
         \<and> map_of effect_operator_group ''_Gradient'' = Some 1"
proof -
  from compute_image_unfold [OF assms(1-3)] obtain effect_image scalarfield dest where
    e: "gimp_drawable_get_by_id h (effect_image_id (licvals pl)) = Some effect_image"
    and lv: "licvals pl' = clamp_filtlen (licvals pl)"
    and gl: "globs pl' = assign_globals (globs pl) (clamp_filtlen (licvals pl)) drw effect_image bw bh"
    and sf: "effect_scalarfield (globs pl') lib rand effect_image (licvals pl') = Some scalarfield"
    and cl: "compute_lic (globs pl') lib (licvals pl') (grid pl') drw scalarfield
               (effect_operator (licvals pl) \<noteq> 0) = Some dest"
    and h': "h' = h \<lparr> drawables := (drawables h) (d \<mapsto> gimp_drawable_merge_shadow lib drw dest) \<rparr>"
    by blast
  have b: "border_w (globs pl') = bw" "border_h (globs pl') = bh"
    by (simp_all add: gl assign_globals_def)
  have conv: "effect_convolve (licvals pl') = effect_convolve (licvals pl)"
    by (simp add: lv clamp_filtlen_def)
  have "compute_pixel (globs pl') lib (licvals pl') (grid pl') (gimp_drawable_get_buffer drw)
          scalarfield (effect_operator (licvals pl) \<noteq> 0) x y = Some (dest x y)"
    by (rule compute_lic_pixel [OF cl]) (simp_all add: b assms(4-7))
  from compute_pixel_parts [OF this] obtain gx gy v where
    g: "gradx (globs pl') scalarfield x y = Some gx" "grady (globs pl') scalarfield x y = Some gy"
    and n: "normalize_flow (if effect_operator (licvals pl) \<noteq> 0 then (real_of_int gy, - real_of_int gx)
                            else (real_of_int gx, real_of_int gy)) = Some v"
    and c: "(if effect_convolve (licvals pl') = 0
             then map_option (multiply_by_alpha (globs pl') (peek (gimp_drawable_get_buffer drw) x y))
                    (lic_noise (globs pl') (grid pl') x y (fst v) (snd v))
             else lic_image (globs pl') lib (gimp_drawable_get_buffer drw) x y (fst v) (snd v))
            = Some (dest x y)"
    by blast
  have n': "normalize_flow (if effect_operator (licvals pl) = 0
                            then (real_of_int gx, real_of_int gy)
                            else (real_of_int gy, - real_of_int gx)) = Some v"
    using n by (cases "effect_operator (licvals pl) = 0") simp_all
  have d: "drawables h' d = Some (gimp_drawable_merge_shadow lib drw dest)"
    by (simp add: h')
  have "\<exists>effect_image scalarfield dest gx gy v.
           gimp_drawable_get_by_id h (effect_image_id (licvals pl)) = Some effect_image
           \<and> effect_scalarfield (globs pl') lib rand effect_image (licvals pl') = Some scalarfield
           \<and> drawables h' d = Some (gimp_drawable_merge_shadow lib drw dest)
           \<and> gradx (globs pl') scalarfield x y = Some gx
           \<and> grady (globs pl') scalarfield x y = Some gy
           \<and> normalize_flow (if effect_operator (licvals pl) = 0
                              then (real_of_int gx, real_of_int gy)
                              else (real_of_int gy, - real_of_int gx)) = Some v
           \<and> (if effect_convolve (licvals pl) = 0
               then map_option (multiply_by_alpha (globs pl') (peek (gimp_drawable_get_buffer drw) x y))
                      (lic_noise (globs pl') (grid pl') x y (fst v) (snd v))
               else lic_image (globs pl') lib (gimp_drawable_get_buffer drw) x y (fst v) (snd v))
              = Some (dest x y)"
    using e sf d g n' c conv by (metis (no_types, lifting))
  moreover have "map_of effect_operator_group ''_Derivative'' = Some 0"
    "map_of effect_operator_group ''_Gradient'' = Some 1"
    by (simp_all add: effect_operator_group_def)
  ultimately show ?thesis by blast
qed

theorem operator_selects_rotation_witness:
  "\<exists>pl' h'. compute_image lib0 G0 rand0 1 (plugin_stripes (lv_stripes 1), host_stripes) = Some (pl', h')
     \<and> (\<exists>effect_image scalarfield dest gx gy v.
           gimp_drawable_get_by_id host_stripes (effect_image_id (licvals (plugin_stripes (lv_stripes 1))))
             = Some effect_image
           \<and> effect_scalarfield (globs pl') lib0 rand0 effect_image (licvals pl') = Some scalarfield
           \<and> drawables h' 1 = Some (gimp_drawable_merge_shadow lib0 stripes dest)
           \<and> gradx (globs pl') scalarfield 1 0 = Some gx
           \<and> grady (globs pl') scalarfield 1 0 = Some gy
           \<and> normalize_flow (if effect_operator (licvals (plugin_stripes (lv_stripes 1))) = 0
                              then (real_of_int gx, real_of_int gy)
                              else (real_of_int gy, - real_of_int gx)) = Some v
           \<and> (if effect_convolve (licvals (plugin_stripes (lv_stripes 1))) = 0
               then map_option (multiply_by_alpha (globs pl') (peek (gimp_drawable_get_buffer stripes) 1 0))
                      (lic_noise (globs pl') (grid pl') 1 0 (fst v) (snd v))
               else lic_image (globs pl') lib0 (gimp_drawable_get_buffer stripes) 1 0 (fst v) (snd v))
              = Some (dest 1 0))"
proof -
  obtain dest where
    "compute_lic (gl_stripes (lv_stripes 1)) lib0 (clamp_filtlen (lv_stripes 1))
       (if effect_convolve (lv_stripes 1) = 0 then G0 else grid (plugin_stripes (lv_stripes 1)))
       stripes field_stripes (effect_operator (lv_stripes 1) \<noteq> 0) = Some dest"
    using stripes_image_run by blast
  from compute_image_stripes [OF _ _ this] obtain pl' h' where
    run: "compute_image lib0 G0 rand0 1 (plugin_stripes (lv_stripes 1), host_stripes) = Some (pl', h')"
    by (simp add: stripes_fields_image)
  have inside: "(0::int) \<le> 1" "(1::int) < 3" "(0::int) \<le> 0" "(0::int) < 1"
    by simp_all
  from operator_selects_rotation [OF run host_stripes_fields(1,2) inside] run
  show ?thesis by blast
qed

text \<open>
  The claim as the spec words it fails. On the drawable \<open>stripes\<close>, taken as
  its own effect image, the gradient at the pixel \<open>(1, 0)\<close> is \<open>(-200, 0)\<close>. The
  run under "Derivative" leaves at this pixel the colour of the convolution
  along \<open>(-1, 0)\<close>, the normalised gradient, not the colour of the convolution
  along its normalised rotation \<open>(0, 1)\<close>; the latter is what the run under
  "Gradient" leaves.
\<close>

theorem derivative_run_is_not_rotated:
  "map_of effect_operator_group ''_Derivative'' = Some (effect_operator (lv_stripes 0))
   \<and> effect_scalarfield (gl_stripes (lv_stripes 0)) lib0 rand0 stripes (clamp_filtlen (lv_stripes 0))
       = Some field_stripes
   \<and> gradx (gl_stripes (lv_stripes 0)) field_stripes 1 0 = Some (- 200)
   \<and> grady (gl_stripes (lv_stripes 0)) field_stripes 1 0 = Some 0
   \<and> normalize_flow (- 200, 0) = Some (- 1, 0)
   \<and> normalize_flow (0, - (- 200)) = Some (0, 1)
   \<and> lic_image (gl_stripes (lv_stripes 0)) lib0 (gimp_drawable_get_buffer stripes) 1 0 (- 1) 0
       = Some \<lparr> rgb_r = 7 / 102, rgb_g = 7 / 102, rgb_b = 7 / 102, rgb_a = 0 \<rparr>
   \<and> lic_image (gl_stripes (lv_stripes 0)) lib0 (gimp_drawable_get_buffer stripes) 1 0 0 1
       = Some \<lparr> rgb_r = 2 / 51, rgb_g = 2 / 51, rgb_b = 2 / 51, rgb_a = 0 \<rparr>
   \<and> run_pixel (compute_image lib0 G0 rand0 1 (plugin_stripes (lv_stripes 0), host_stripes)) 1 1 0
       = Some \<lparr> rgb_r = 7 / 102, rgb_g = 7 / 102, rgb_b = 7 / 102, rgb_a = 0 \<rparr>
   \<and> map_of effect_operator_group ''_Gradient'' = Some (effect_operator (lv_stripes 1))
   \<and> run_pixel (compute_image lib0 G0 rand0 1 (plugin_stripes (lv_stripes 1), host_stripes)) 1 1 0
       = Some \<lparr> rgb_r = 2 / 51, rgb_g = 2 / 51, rgb_b = 2 / 51, rgb_a = 0 \<rparr>"
proof -
  have nf: "normalize_flow (- 200, 0) = Some (- 1, 0)" "normalize_flow (0, - (- 200)) = Some (0, 1)"
    by (simp_all add: normalize_flow_def sqrt_40000 fdiv_def)
  have ch: "effect_channel (lv_stripes 0) = 2"
    by (rule stripes_fields_image)
  show ?thesis
    using nf
    by (simp add: effect_operator_group_def stripes_fields_image
        effect_scalarfield_stripes [OF ch] gradx_stripes grady_stripes
        lic_image_stripes_unrotated lic_image_stripes_rotated run_pixel_stripes_image)
qed

text \<open>
  Claim C5, as the code has it. Provided \<open>minv \<noteq> maxv\<close> (and a positive \<open>l\<close>
  and \<open>isteps\<close> and non-zero cell sizes), for every pixel and flow vector
  \<open>lic_noise\<close> returns \<open>clamp ((I - minv) / (maxv - minv), 0, 1) / 2 + 0.5\<close>,
  where \<open>I\<close> is the trapezoidal integral, and this value lies in \<open>[0.5, 1]\<close>,
  as the formula does for any value \<open>J\<close> of the integral. In noise mode
  (\<open>effect_convolve = 0\<close>), when \<^verbatim>\<open>compute_lic\<close> has a result, the pixel
  \<open>(x, y)\<close> of the destination buffer, for \<open>(x, y)\<close> in the processed rectangle,
  is the source pixel at \<open>(x, y)\<close> with its three colour channels multiplied
  by the value of \<open>lic_noise\<close> for the flow vector of the pixel, and its alpha
  multiplied by it too when the source has an alpha channel.
\<close>

theorem lic_noise_result:
  assumes "0 < gl_l gl" "0 < gl_isteps gl" "gl_dx gl \<noteq> 0" "gl_dy gl \<noteq> 0"
    and "gl_minv gl \<noteq> gl_maxv gl"
  shows "(\<exists>I res. lic_noise_integral gl G x y vx vy = Some I
            \<and> lic_noise gl G x y vx vy = Some res
            \<and> res = CLAMP ((I - gl_minv gl) / (gl_maxv gl - gl_minv gl)) 0 1 / 2 + 1 / 2
            \<and> 1 / 2 \<le> res \<and> res \<le> 1)
         \<and> 1 / 2 \<le> CLAMP ((J - gl_minv gl) / (gl_maxv gl - gl_minv gl)) 0 1 / 2 + 1 / 2
         \<and> CLAMP ((J - gl_minv gl) / (gl_maxv gl - gl_minv gl)) 0 1 / 2 + 1 / 2 \<le> 1
         \<and> (effect_convolve lv = 0
              \<and> compute_lic gl lib lv G drw scalarfield rot = Some dest
              \<and> 0 \<le> x \<and> x < border_w gl \<and> 0 \<le> y \<and> y < border_h gl \<longrightarrow>
             (\<exists>v I res.
                flow_vector gl scalarfield rot x y = Some v
                \<and> lic_noise_integral gl G x y (fst v) (snd v) = Some I
                \<and> lic_noise gl G x y (fst v) (snd v) = Some res
                \<and> res = CLAMP ((I - gl_minv gl) / (gl_maxv gl - gl_minv gl)) 0 1 / 2 + 1 / 2
                \<and> 1 / 2 \<le> res \<and> res \<le> 1
                \<and> dest x y
                    = \<lparr> rgb_r = rgb_r (peek (gimp_drawable_get_buffer drw) x y) * res,
                        rgb_g = rgb_g (peek (gimp_drawable_get_buffer drw) x y) * res,
                        rgb_b = rgb_b (peek (gimp_drawable_get_buffer drw) x y) * res,
                        rgb_a = (if source_drw_has_alpha gl
                                 then rgb_a (peek (gimp_drawable_get_buffer drw) x y) * res
                                 else rgb_a (peek (gimp_drawable_get_buffer drw) x y)) \<rparr>))"
proof -
  have noise_value: "\<exists>I res. lic_noise_integral gl G x y wx wy = Some I
            \<and> lic_noise gl G x y wx wy = Some res
            \<and> res = CLAMP ((I - gl_minv gl) / (gl_maxv gl - gl_minv gl)) 0 1 / 2 + 1 / 2
            \<and> 1 / 2 \<le> res \<and> res \<le> 1" for wx wy
  proof -
    obtain I where I: "lic_noise_integral gl G x y wx wy = Some I"
      using lic_noise_integral_some [OF assms(1-4)] by blast
    define res where "res = CLAMP ((I - gl_minv gl) / (gl_maxv gl - gl_minv gl)) 0 1 / 2 + 1 / 2"
    have r: "lic_noise gl G x y wx wy = Some res"
      unfolding res_def by (rule lic_noise_some [OF I assms(5)])
    have b: "1 / 2 \<le> res" "res \<le> 1"
      using CLAMP_bounds [of 0 1 "(I - gl_minv gl) / (gl_maxv gl - gl_minv gl)"]
      by (simp_all add: res_def)
    show ?thesis using I r b res_def by blast
  qed
  have range: "1 / 2 \<le> CLAMP ((J - gl_minv gl) / (gl_maxv gl - gl_minv gl)) 0 1 / 2 + 1 / 2"
    "CLAMP ((J - gl_minv gl) / (gl_maxv gl - gl_minv gl)) 0 1 / 2 + 1 / 2 \<le> 1"
    using CLAMP_bounds [of 0 1 "(J - gl_minv gl) / (gl_maxv gl - gl_minv gl)"]
    by simp_all
  have poked: "\<exists>v I res.
                flow_vector gl scalarfield rot x y = Some v
                \<and> lic_noise_integral gl G x y (fst v) (snd v) = Some I
                \<and> lic_noise gl G x y (fst v) (snd v) = Some res
                \<and> res = CLAMP ((I - gl_minv gl) / (gl_maxv gl - gl_minv gl)) 0 1 / 2 + 1 / 2
                \<and> 1 / 2 \<le> res \<and> res \<le> 1
                \<and> dest x y
                    = \<lparr> rgb_r = rgb_r (peek (gimp_drawable_get_buffer drw) x y) * res,
                        rgb_g = rgb_g (peek (gimp_drawable_get_buffer drw) x y) * res,
                        rgb_b = rgb_b (peek (gimp_drawable_get_buffer drw) x y) * res,
                        rgb_a = (if source_drw_has_alpha gl
                                 then rgb_a (peek (gimp_drawable_get_buffer drw) x y) * res
                                 else rgb_a (peek (gimp_drawable_get_buffer drw) x y)) \<rparr>"
    if noise_mode: "effect_convolve lv = 0"
      and run: "compute_lic gl lib lv G drw scalarfield rot = Some dest"
      and inside: "0 \<le> x" "x < border_w gl" "0 \<le> y" "y < border_h gl"
  proof -
    have "compute_pixel gl lib lv G (gimp_drawable_get_buffer drw) scalarfield rot x y
            = Some (dest x y)"
      by (rule compute_lic_pixel [OF run inside])
    from compute_pixel_parts [OF this] noise_mode obtain v where
      v: "flow_vector gl scalarfield rot x y = Some v"
      and c: "map_option (multiply_by_alpha gl (peek (gimp_drawable_get_buffer drw) x y))
                (lic_noise gl G x y (fst v) (snd v)) = Some (dest x y)"
      by auto
    from noise_value [of "fst v" "snd v"] obtain I res where
      I: "lic_noise_integral gl G x y (fst v) (snd v) = Some I"
      and r: "lic_noise gl G x y (fst v) (snd v) = Some res"
      and f: "res = CLAMP ((I - gl_minv gl) / (gl_maxv gl - gl_minv gl)) 0 1 / 2 + 1 / 2"
      and b: "1 / 2 \<le> res" "res \<le> 1"
      by blast
    have "dest x y = multiply_by_alpha gl (peek (gimp_drawable_get_buffer drw) x y) res"
      using c r by simp
    then have "dest x y
                    = \<lparr> rgb_r = rgb_r (peek (gimp_drawable_get_buffer drw) x y) * res,
                        rgb_g = rgb_g (peek (gimp_drawable_get_buffer drw) x y) * res,
                        rgb_b = rgb_b (peek (gimp_drawable_get_buffer drw) x y) * res,
                        rgb_a = (if source_drw_has_alpha gl
                                 then rgb_a (peek (gimp_drawable_get_buffer drw) x y) * res
                                 else rgb_a (peek (gimp_drawable_get_buffer drw) x y)) \<rparr>"
      by (simp add: multiply_by_alpha_def gimp_rgba_multiply_def gimp_rgb_multiply_def)
    then show ?thesis using v I r f b by blast
  qed
  show ?thesis
    using noise_value [of vx vy] range poked by blast
qed

theorem lic_noise_result_witness:
  "\<exists>dest. compute_lic (gl_stripes lv_stripes_noise) lib0 lv_stripes_noise G0 stripes field_stripes True
            = Some dest
     \<and> (\<exists>I res. lic_noise_integral (gl_stripes lv_stripes_noise) G0 1 0 0 1 = Some I
            \<and> lic_noise (gl_stripes lv_stripes_noise) G0 1 0 0 1 = Some res
            \<and> res = CLAMP ((I - gl_minv (gl_stripes lv_stripes_noise))
                             / (gl_maxv (gl_stripes lv_stripes_noise) - gl_minv (gl_stripes lv_stripes_noise)))
                       0 1 / 2 + 1 / 2
            \<and> 1 / 2 \<le> res \<and> res \<le> 1)
     \<and> (\<exists>v I res.
           flow_vector (gl_stripes lv_stripes_noise) field_stripes True 1 0 = Some v
           \<and> lic_noise_integral (gl_stripes lv_stripes_noise) G0 1 0 (fst v) (snd v) = Some I
           \<and> lic_noise (gl_stripes lv_stripes_noise) G0 1 0 (fst v) (snd v) = Some res
           \<and> 1 / 2 \<le> res \<and> res \<le> 1
           \<and> dest 1 0
               = \<lparr> rgb_r = rgb_r (peek (gimp_drawable_get_buffer stripes) 1 0) * res,
                   rgb_g = rgb_g (peek (gimp_drawable_get_buffer stripes) 1 0) * res,
                   rgb_b = rgb_b (peek (gimp_drawable_get_buffer stripes) 1 0) * res,
                   rgb_a = rgb_a (peek (gimp_drawable_get_buffer stripes) 1 0) \<rparr>)"
proof -
  obtain dest where
    run: "compute_lic (gl_stripes lv_stripes_noise) lib0 lv_stripes_noise G0 stripes field_stripes True
            = Some dest"
    using stripes_noise_run by blast
  have hyps: "0 < gl_l (gl_stripes lv_stripes_noise)" "0 < gl_isteps (gl_stripes lv_stripes_noise)"
    "gl_dx (gl_stripes lv_stripes_noise) \<noteq> 0" "gl_dy (gl_stripes lv_stripes_noise) \<noteq> 0"
    "gl_minv (gl_stripes lv_stripes_noise) \<noteq> gl_maxv (gl_stripes lv_stripes_noise)"
    by (simp_all add: stripes_fields_noise)
  have pre: "effect_convolve lv_stripes_noise = 0
              \<and> compute_lic (gl_stripes lv_stripes_noise) lib0 lv_stripes_noise G0 stripes field_stripes True
                  = Some dest
              \<and> (0::int) \<le> 1 \<and> 1 < border_w (gl_stripes lv_stripes_noise)
              \<and> (0::int) \<le> 0 \<and> 0 < border_h (gl_stripes lv_stripes_noise)"
    using run by (simp add: stripes_fields_noise gl_stripes_fields)
  have no_alpha: "\<not> source_drw_has_alpha (gl_stripes lv_stripes_noise)"
    by (simp add: gl_stripes_fields)
  from lic_noise_result [OF hyps, of G0 1 0 0 1 0 lv_stripes_noise lib0 stripes field_stripes True dest]
    pre no_alpha run
  show ?thesis
    by (intro exI [of _ dest]) (simp only: simp_thms if_False, blast)
qed

text \<open>
  The claim as the spec words it, without the condition on the bounds, fails:
  with the minimum and the maximum value both 0, which the dialog allows,
  \<open>lic_noise\<close> has no value, in \<open>[0.5, 1]\<close> or elsewhere, and the run of
  \<^verbatim>\<open>compute_image\<close> has no result.
\<close>

theorem equal_bounds_leave_no_value:
  "lv_minv lv_stripes_flat = 0 \<and> lv_maxv lv_stripes_flat = 0
   \<and> 0 < gl_l (gl_stripes lv_stripes_flat) \<and> 0 < gl_isteps (gl_stripes lv_stripes_flat)
   \<and> gl_dx (gl_stripes lv_stripes_flat) \<noteq> 0 \<and> gl_dy (gl_stripes lv_stripes_flat) \<noteq> 0
   \<and> gl_minv (gl_stripes lv_stripes_flat) = gl_maxv (gl_stripes lv_stripes_flat)
   \<and> flow_vector (gl_stripes lv_stripes_flat) field_stripes True 1 0 = Some (0, 1)
   \<and> lic_noise_integral (gl_stripes lv_stripes_flat) G0 1 0 0 1 = Some 0
   \<and> lic_noise (gl_stripes lv_stripes_flat) G0 1 0 0 1 = None
   \<and> compute_image lib0 G0 rand0 1 (plugin_stripes lv_stripes_flat, host_stripes) = None"
proof -
  have conv: "effect_convolve (clamp_filtlen lv_stripes_flat) = 0"
    by (simp add: clamp_filtlen_def stripes_fields_flat)
  have px: "compute_pixel (gl_stripes lv_stripes_flat) lib0 (clamp_filtlen lv_stripes_flat)
              (if effect_convolve lv_stripes_flat = 0 then G0 else grid (plugin_stripes lv_stripes_flat))
              (gimp_drawable_get_buffer stripes) field_stripes (effect_operator lv_stripes_flat \<noteq> 0) 1 0
            = None"
    by (simp add: compute_pixel_def stripes_fields_flat flow_stripes_rotated conv
        lic_noise_stripes_flat)
  have "compute_lic (gl_stripes lv_stripes_flat) lib0 (clamp_filtlen lv_stripes_flat)
          (if effect_convolve lv_stripes_flat = 0 then G0 else grid (plugin_stripes lv_stripes_flat))
          stripes field_stripes (effect_operator lv_stripes_flat \<noteq> 0) = None"
    by (rule compute_lic_none [OF px]) (simp_all add: gl_stripes_fields)
  then have "compute_image lib0 G0 rand0 1 (plugin_stripes lv_stripes_flat, host_stripes) = None"
    by (intro compute_image_stripes_none) (simp_all add: stripes_fields_flat)
  then show ?thesis
    by (simp add: stripes_fields_flat flow_stripes_rotated lic_noise_integral_stripes_flat
        lic_noise_stripes_flat)
qed

text \<open>
  Claim C2 does not hold of the code. When the host does not know the
  identifier of the effect image, \<open>lic_run\<close> replaces it by \<open>-1\<close> and, run with
  the last values, hands it to \<open>compute_image\<close>, which looks the effect image
  up under \<open>-1\<close> and goes on with the null pointer: the source drawable is
  not taken in its place, and the run has no result.
\<close>

theorem no_fallback_to_source_drawable:
  "\<not> gimp_item_id_is_valid host_rgb (effect_image_id set_default_settings)
   \<and> drawables host_rgb 1 = Some (gray_drawable 1 1 True)
   \<and> effect_image_id (retrieve_settings host_rgb) = - 1
   \<and> gimp_drawable_get_by_id host_rgb (effect_image_id (retrieve_settings host_rgb))
       \<noteq> drawables host_rgb 1
   \<and> lic_run lib0 G0 rand0 dialog0 GIMP_RUN_WITH_LAST_VALS 1 [1] (plugin0, host_rgb) = None"
proof -
  have "compute_image lib0 G0 rand0 1 (plugin0 \<lparr> licvals := set_default_settings \<rparr>, host_rgb) = None"
    by (simp add: compute_image_def host_rgb_def gray_drawable_def clamp_filtlen_def
        set_default_settings_def gimp_drawable_get_by_id_def)
  then have "lic_run lib0 G0 rand0 dialog0 GIMP_RUN_WITH_LAST_VALS 1 [1] (plugin0, host_rgb) = None"
    by (simp add: lic_run_def retrieve_settings_host_rgb)
       (simp add: host_rgb_def gray_drawable_def)
  then show ?thesis
    by (simp add: retrieve_settings_host_rgb)
       (simp add: host_rgb_def set_default_settings_def gimp_item_id_is_valid_def
          gimp_drawable_get_by_id_def)
qed

end
